theory Spec2Isabelle
  imports Main "HOL-Library.Word"
begin

unbundle bit_operations_syntax

section \<open>Bytes, text and exceptions\<close>

text \<open>
  A Python \<open>bytes\<close> object is a list of 8-bit words.  A Python \<open>str\<close> is a \<open>string\<close>:
  its characters are the bytes of the UTF-8 encoding, so that \<open>force_bytes\<close> on text is
  the byte-wise reading of the string.  The arguments typed \<open>Union[bytes, str]\<close> in
  \<^verbatim>\<open>utils/crypto.py\<close> are values of \<open>bytes_or_str\<close>.
\<close>

type_synonym byte = "8 word"
type_synonym bytes = "byte list"

datatype bytes_or_str = Bytes bytes | Str string

text \<open>
  The exceptions that the modelled code can raise.  \<open>InvalidToken\<close> is the class declared
  in \<^verbatim>\<open>utils/crypto.py\<close>; \<open>InvalidAlgorithm\<close>, \<open>BadSignature\<close> and \<open>SignatureExpired\<close>
  are Django's; \<open>binascii_Error\<close> is \<^verbatim>\<open>binascii.Error\<close>, a subclass of \<open>ValueError\<close>.
  A raising call is a result \<open>Inl e\<close>, a returning one \<open>Inr v\<close>.
\<close>

datatype error =
    InvalidToken
  | InvalidAlgorithm
  | ValueError
  | TypeError
  | binascii_Error
  | BadSignature
  | SignatureExpired

definition force_bytes :: "bytes_or_str \<Rightarrow> bytes" where
  "force_bytes s = (case s of Bytes b \<Rightarrow> b | Str t \<Rightarrow> map of_char t)"

text \<open>\<^verbatim>\<open>isinstance(e, ValueError)\<close>: what an \<^verbatim>\<open>except ValueError\<close> clause catches.\<close>

definition is_ValueError :: "error \<Rightarrow> bool" where
  "is_ValueError e = (e = ValueError \<or> e = binascii_Error)"

text \<open>\<^verbatim>\<open>x or d\<close> on an optional bytes-or-text value: \<open>None\<close> and the empty value are falsy.\<close>

fun py_or :: "bytes_or_str option \<Rightarrow> bytes_or_str \<Rightarrow> bytes_or_str" where
  "py_or None d = d"
| "py_or (Some (Bytes [])) d = d"
| "py_or (Some (Str [])) d = d"
| "py_or (Some k) d = k"

section \<open>Library primitives the module calls\<close>

subsection \<open>Base64 (\<^verbatim>\<open>base64.urlsafe_b64encode\<close>, \<^verbatim>\<open>base64.urlsafe_b64decode\<close>)\<close>

text \<open>
  The encoder follows RFC 4648 with padding.  The decoder is CPython's
  \<^verbatim>\<open>binascii.a2b_base64\<close> with \<^verbatim>\<open>strict_mode\<close> off, which is what
  \<^verbatim>\<open>base64.b64decode\<close> calls by default: a byte outside the alphabet is skipped, a pad
  byte ends the input once the current quad has two or three characters and the pads
  fill it, and an input that ends inside a quad raises \<^verbatim>\<open>binascii.Error\<close>.
\<close>

definition BASE64_PAD :: byte where
  "BASE64_PAD = 61"

definition table_b2a_base64 :: "byte \<Rightarrow> byte" where
  "table_b2a_base64 v =
     (let n = unat v in
      if n < 26 then of_nat (65 + n)
      else if n < 52 then of_nat (71 + n)
      else if n < 62 then of_nat (n - 4)
      else if n = 62 then 43
      else 47)"

definition table_a2b_base64 :: "byte \<Rightarrow> byte option" where
  "table_a2b_base64 c =
     (let n = unat c in
      if 65 \<le> n \<and> n \<le> 90 then Some (of_nat (n - 65))
      else if 97 \<le> n \<and> n \<le> 122 then Some (of_nat (n - 71))
      else if 48 \<le> n \<and> n \<le> 57 then Some (of_nat (n + 4))
      else if n = 43 then Some 62
      else if n = 47 then Some 63
      else None)"

fun b2a_base64 :: "bytes \<Rightarrow> bytes" where
  "b2a_base64 [] = []"
| "b2a_base64 [a] =
     [table_b2a_base64 (drop_bit 2 a),
      table_b2a_base64 (push_bit 4 (a AND 3)),
      BASE64_PAD, BASE64_PAD]"
| "b2a_base64 [a, b] =
     [table_b2a_base64 (drop_bit 2 a),
      table_b2a_base64 (push_bit 4 (a AND 3) OR drop_bit 4 b),
      table_b2a_base64 (push_bit 2 (b AND 15)),
      BASE64_PAD]"
| "b2a_base64 (a # b # c # rest) =
     [table_b2a_base64 (drop_bit 2 a),
      table_b2a_base64 (push_bit 4 (a AND 3) OR drop_bit 4 b),
      table_b2a_base64 (push_bit 2 (b AND 15) OR drop_bit 6 c),
      table_b2a_base64 (c AND 63)] @ b2a_base64 rest"

text \<open>
  The decoding loop: \<open>quad_pos\<close> is the position inside the current group of four
  characters, \<open>leftchar\<close> the bits left over from the previous character, \<open>pads\<close> the
  pad bytes seen since the last data character, \<open>out\<close> the bytes written so far.
\<close>

fun a2b_loop :: "nat \<Rightarrow> byte \<Rightarrow> nat \<Rightarrow> bytes \<Rightarrow> bytes \<Rightarrow> error + bytes" where
  "a2b_loop quad_pos leftchar pads out [] =
     (if quad_pos \<noteq> 0 then Inl binascii_Error else Inr out)"
| "a2b_loop quad_pos leftchar pads out (c # cs) =
     (if c = BASE64_PAD then
        (if 2 \<le> quad_pos \<and> 4 \<le> quad_pos + (pads + 1) then Inr out
         else a2b_loop quad_pos leftchar (if 2 \<le> quad_pos then pads + 1 else pads) out cs)
      else
        (case table_a2b_base64 c of
           None \<Rightarrow> a2b_loop quad_pos leftchar pads out cs
         | Some v \<Rightarrow>
             (if quad_pos = 0 then a2b_loop 1 v 0 out cs
              else if quad_pos = 1 then
                a2b_loop 2 (v AND 15) 0 (out @ [push_bit 2 leftchar OR drop_bit 4 v]) cs
              else if quad_pos = 2 then
                a2b_loop 3 (v AND 3) 0 (out @ [push_bit 4 leftchar OR drop_bit 2 v]) cs
              else a2b_loop 0 0 0 (out @ [push_bit 6 leftchar OR v]) cs)))"

definition a2b_base64 :: "bytes \<Rightarrow> error + bytes" where
  "a2b_base64 s = a2b_loop 0 0 0 [] s"

text \<open>The two translations between the standard and the URL-safe alphabet.\<close>

definition urlsafe_encode_translation :: "byte \<Rightarrow> byte" where
  "urlsafe_encode_translation c = (if c = 43 then 45 else if c = 47 then 95 else c)"

definition urlsafe_decode_translation :: "byte \<Rightarrow> byte" where
  "urlsafe_decode_translation c = (if c = 45 then 43 else if c = 95 then 47 else c)"

text \<open>
  \<^verbatim>\<open>base64._bytes_from_decode_types\<close>: text must be ASCII, else \<open>ValueError\<close>.
\<close>

definition bytes_from_decode_types :: "bytes_or_str \<Rightarrow> error + bytes" where
  "bytes_from_decode_types s =
     (case s of
        Bytes b \<Rightarrow> Inr b
      | Str t \<Rightarrow>
          (if list_all (\<lambda>c. of_char c < (128::nat)) t then Inr (map of_char t)
           else Inl ValueError))"

definition urlsafe_b64encode :: "bytes \<Rightarrow> bytes" where
  "urlsafe_b64encode s = map urlsafe_encode_translation (b2a_base64 s)"

definition urlsafe_b64decode :: "bytes_or_str \<Rightarrow> error + bytes" where
  "urlsafe_b64decode s =
     (case bytes_from_decode_types s of
        Inl e \<Rightarrow> Inl e
      | Inr b \<Rightarrow> a2b_base64 (map urlsafe_decode_translation b))"

subsection \<open>PKCS7 padding (\<^verbatim>\<open>padding.PKCS7(128)\<close>)\<close>

text \<open>
  The padder appends \<open>n\<close> bytes of value \<open>n\<close>, with \<open>1 \<le> n \<le> 16\<close>, up to the next multiple
  of the block.  The unpadder's \<^verbatim>\<open>finalize\<close> raises \<open>ValueError\<close> unless its buffer
  holds exactly one block whose last byte \<open>n\<close> is between 1 and 16 and whose last \<open>n\<close>
  bytes all equal \<open>n\<close>.
\<close>

definition AES_block_size :: nat where
  "AES_block_size = 16"

definition PKCS7_pad :: "bytes \<Rightarrow> bytes" where
  "PKCS7_pad d =
     (let n = AES_block_size - length d mod AES_block_size in d @ replicate n (of_nat n))"

definition PKCS7_unpad :: "bytes \<Rightarrow> error + bytes" where
  "PKCS7_unpad d =
     (if d = [] \<or> length d mod AES_block_size \<noteq> 0 then Inl ValueError
      else
        (let n = unat (last d) in
         if n = 0 \<or> AES_block_size < n
            \<or> \<not> list_all (\<lambda>b. b = last d) (drop (length d - n) d)
         then Inl ValueError
         else Inr (take (length d - n) d)))"

subsection \<open>AES in CBC mode (\<^verbatim>\<open>Cipher(algorithms.AES(key), modes.CBC(iv))\<close>)\<close>

text \<open>
  The block cipher itself is a parameter: two functions from a key and a 16-byte block
  to a 16-byte block.  The mode of operation is written out.
\<close>

definition xor_bytes :: "bytes \<Rightarrow> bytes \<Rightarrow> bytes" where
  "xor_bytes a b = map2 (XOR) a b"

function blocks :: "bytes \<Rightarrow> bytes list" where
  "blocks d = (if d = [] then [] else take AES_block_size d # blocks (drop AES_block_size d))"
  by pat_completeness auto
termination
  by (relation "measure length") (auto simp: AES_block_size_def)

declare blocks.simps [simp del]

fun cbc_encrypt_blocks :: "(bytes \<Rightarrow> bytes) \<Rightarrow> bytes \<Rightarrow> bytes list \<Rightarrow> bytes" where
  "cbc_encrypt_blocks E prev [] = []"
| "cbc_encrypt_blocks E prev (p # ps) =
     (let c = E (xor_bytes p prev) in c @ cbc_encrypt_blocks E c ps)"

fun cbc_decrypt_blocks :: "(bytes \<Rightarrow> bytes) \<Rightarrow> bytes \<Rightarrow> bytes list \<Rightarrow> bytes" where
  "cbc_decrypt_blocks D prev [] = []"
| "cbc_decrypt_blocks D prev (c # cs) = xor_bytes (D c) prev @ cbc_decrypt_blocks D c cs"

record block_cipher =
  encrypt_block :: "bytes \<Rightarrow> bytes \<Rightarrow> bytes"
  decrypt_block :: "bytes \<Rightarrow> bytes \<Rightarrow> bytes"

text \<open>\<^verbatim>\<open>algorithms.AES\<close> accepts keys of 128, 192 and 256 bits.\<close>

definition AES_key_ok :: "bytes \<Rightarrow> bool" where
  "AES_key_ok k = (length k = 16 \<or> length k = 24 \<or> length k = 32)"

record cipher =
  cipher_key :: bytes
  cipher_iv :: bytes

text \<open>
  Constructing the cipher: \<^verbatim>\<open>algorithms.AES(key)\<close> raises \<open>ValueError\<close> on a key of
  another size, and \<^verbatim>\<open>Cipher\<close> raises \<open>ValueError\<close> when the IV is not one block long.
\<close>

definition Cipher :: "bytes \<Rightarrow> bytes \<Rightarrow> error + cipher" where
  "Cipher k iv =
     (if \<not> AES_key_ok k then Inl ValueError
      else if length iv \<noteq> AES_block_size then Inl ValueError
      else Inr \<lparr>cipher_key = k, cipher_iv = iv\<rparr>)"

text \<open>
  \<^verbatim>\<open>encryptor.update(d) + encryptor.finalize()\<close>: \<^verbatim>\<open>finalize\<close> raises \<open>ValueError\<close> when
  the data is not a whole number of blocks.
\<close>

definition encryptor_run :: "block_cipher \<Rightarrow> cipher \<Rightarrow> bytes \<Rightarrow> error + bytes" where
  "encryptor_run bc c d =
     (if length d mod AES_block_size \<noteq> 0 then Inl ValueError
      else Inr (cbc_encrypt_blocks (encrypt_block bc (cipher_key c)) (cipher_iv c) (blocks d)))"

text \<open>
  \<^verbatim>\<open>decryptor.update(ct)\<close> returns the plaintext of the complete blocks;
  \<^verbatim>\<open>decryptor.finalize()\<close> returns nothing more, or raises \<open>ValueError\<close> when a partial
  block is left over.
\<close>

definition decryptor_update :: "block_cipher \<Rightarrow> cipher \<Rightarrow> bytes \<Rightarrow> bytes" where
  "decryptor_update bc c ct =
     cbc_decrypt_blocks (decrypt_block bc (cipher_key c)) (cipher_iv c)
       (blocks (take (length ct - length ct mod AES_block_size) ct))"

definition decryptor_finalize :: "bytes \<Rightarrow> error + bytes" where
  "decryptor_finalize ct =
     (if length ct mod AES_block_size \<noteq> 0 then Inl ValueError else Inr [])"

subsection \<open>Digests, HMAC and PBKDF2-HMAC\<close>

text \<open>
  A digest of the \<^verbatim>\<open>hashes\<close> module is its two sizes and its function, which is a
  parameter.  HMAC is RFC 2104 over it, PBKDF2 is RFC 8018, section 5.2, over HMAC.
\<close>

record hash_algorithm =
  digest_size :: nat
  block_size :: nat
  hash :: "bytes \<Rightarrow> bytes"

definition HMAC_digest :: "hash_algorithm \<Rightarrow> bytes \<Rightarrow> bytes \<Rightarrow> bytes" where
  "HMAC_digest h k m =
     (let k0 = (if block_size h < length k then hash h k else k);
          k1 = k0 @ replicate (block_size h - length k0) 0
      in hash h (map (\<lambda>b. b XOR 92) k1 @ hash h (map (\<lambda>b. b XOR 54) k1 @ m)))"

text \<open>The \<^verbatim>\<open>HMAC\<close> object: the key, the digest and the data fed to it so far.\<close>

record HMAC =
  hmac_key :: bytes
  hmac_algorithm :: hash_algorithm
  hmac_data :: bytes

definition HMAC_new :: "bytes \<Rightarrow> hash_algorithm \<Rightarrow> HMAC" where
  "HMAC_new k h = \<lparr>hmac_key = k, hmac_algorithm = h, hmac_data = []\<rparr>"

definition HMAC_update :: "HMAC \<Rightarrow> bytes \<Rightarrow> HMAC" where
  "HMAC_update m d = m\<lparr>hmac_data := hmac_data m @ d\<rparr>"

definition HMAC_finalize :: "HMAC \<Rightarrow> bytes" where
  "HMAC_finalize m = HMAC_digest (hmac_algorithm m) (hmac_key m) (hmac_data m)"

text \<open>The four-byte big-endian block index of PBKDF2.\<close>

definition INT_32_BE :: "nat \<Rightarrow> bytes" where
  "INT_32_BE i =
     [of_nat (i div 16777216), of_nat (i div 65536), of_nat (i div 256), of_nat i]"

primrec pbkdf2_rounds :: "hash_algorithm \<Rightarrow> bytes \<Rightarrow> nat \<Rightarrow> bytes \<Rightarrow> bytes \<Rightarrow> bytes" where
  "pbkdf2_rounds h p 0 u acc = acc"
| "pbkdf2_rounds h p (Suc n) u acc =
     (let u' = HMAC_digest h p u in pbkdf2_rounds h p n u' (xor_bytes acc u'))"

definition pbkdf2_F :: "hash_algorithm \<Rightarrow> bytes \<Rightarrow> bytes \<Rightarrow> nat \<Rightarrow> nat \<Rightarrow> bytes" where
  "pbkdf2_F h p s c i =
     (let u1 = HMAC_digest h p (s @ INT_32_BE i) in pbkdf2_rounds h p (c - 1) u1 u1)"

text \<open>
  \<^verbatim>\<open>PBKDF2HMAC(digest, length, salt, iterations).derive(password)\<close>, for a positive
  iteration count.
\<close>

definition PBKDF2HMAC_derive ::
  "hash_algorithm \<Rightarrow> nat \<Rightarrow> bytes \<Rightarrow> nat \<Rightarrow> bytes \<Rightarrow> bytes" where
  "PBKDF2HMAC_derive h n s c p =
     take n (concat (map (pbkdf2_F h p s c)
       [1 ..< Suc ((n + digest_size h - 1) div digest_size h)]))"

subsection \<open>The signer protocol (\<^verbatim>\<open>typing.Signer\<close>)\<close>

text \<open>
  A signer class is its three methods, which read the instance's key and algorithm;
  \<open>unsign\<close> also reads the clock.  A signer is an instance: its class and the two
  constructor arguments.  The classes themselves live outside this module.
\<close>

record Signer_type =
  signature_method :: "bytes_or_str option \<Rightarrow> string option \<Rightarrow> bytes \<Rightarrow> error + bytes"
  sign_method :: "bytes_or_str option \<Rightarrow> string option \<Rightarrow> bytes \<Rightarrow> int \<Rightarrow> error + bytes"
  unsign_method ::
    "bytes_or_str option \<Rightarrow> string option \<Rightarrow> int \<Rightarrow> bytes \<Rightarrow> int option \<Rightarrow> error + bytes"

record Signer =
  signer_type :: Signer_type
  signer_key :: "bytes_or_str option"
  signer_algorithm :: "string option"

definition Signer_new :: "Signer_type \<Rightarrow> bytes_or_str option \<Rightarrow> string option \<Rightarrow> Signer" where
  "Signer_new cls k a = \<lparr>signer_type = cls, signer_key = k, signer_algorithm = a\<rparr>"

definition sign :: "Signer \<Rightarrow> bytes \<Rightarrow> int \<Rightarrow> error + bytes" where
  "sign s v t = sign_method (signer_type s) (signer_key s) (signer_algorithm s) v t"

definition unsign :: "Signer \<Rightarrow> int \<Rightarrow> bytes \<Rightarrow> int option \<Rightarrow> error + bytes" where
  "unsign s now v max_age =
     unsign_method (signer_type s) (signer_key s) (signer_algorithm s) now v max_age"

subsection \<open>Settings and the world outside\<close>

text \<open>
  What the module reads from outside itself: the two settings, the default signer
  class \<^verbatim>\<open>core.signing.FernetSigner\<close>, Python's \<^verbatim>\<open>str.upper\<close>, the attributes of the
  \<^verbatim>\<open>hashes\<close> module, its \<open>SHA256\<close>, the AES block cipher of the backend, and the clock
  in whole seconds.

  \<open>hashes e n\<close> is \<^verbatim>\<open>getattr(hashes, n)\<close>: \<open>None\<close> when the module has no attribute of
  that name (the \<open>AttributeError\<close>), and otherwise what calling the attribute with no
  argument does, which is to return a digest or to raise an exception.
\<close>

type_synonym hasher = "error + hash_algorithm"

record env =
  SECRET_KEY :: bytes_or_str
  CRYPTOGRAPHY_KEY :: bytes_or_str
  FernetSigner :: Signer_type
  str_upper :: "string \<Rightarrow> string"
  hashes :: "string \<Rightarrow> hasher option"
  SHA256 :: hash_algorithm
  AES :: block_cipher
  time_time :: int

text \<open>\<^verbatim>\<open>os.urandom(n)\<close>: the next \<open>n\<close> bytes of the system's entropy stream.\<close>

definition os_urandom :: "(nat \<Rightarrow> byte) \<Rightarrow> nat \<Rightarrow> bytes" where
  "os_urandom rnd n = map rnd [0 ..< n]"

section \<open>The module \<^verbatim>\<open>django_cryptography/utils/crypto.py\<close>\<close>

subsection \<open>\<^verbatim>\<open>salted_hmac\<close>\<close>

text \<open>
  The secret defaults to \<^verbatim>\<open>settings.SECRET_KEY\<close>.  The digest class is looked up under
  the upper-cased algorithm name; only that lookup stands in the \<^verbatim>\<open>try\<close> block, where
  a missing attribute raises \<open>InvalidAlgorithm\<close>.  The calls \<^verbatim>\<open>hasher()\<close> stand after
  it, so what they raise reaches the caller.  The key of the returned HMAC object is the
  digest of \<open>key_salt + secret\<close>, and the object has been fed the value.
\<close>

definition salted_hmac ::
  "env \<Rightarrow> bytes_or_str \<Rightarrow> bytes_or_str \<Rightarrow> bytes_or_str option \<Rightarrow> string \<Rightarrow> error + HMAC" where
  "salted_hmac e key_salt val secret algorithm =
     (let secret = (case secret of None \<Rightarrow> SECRET_KEY e | Some s \<Rightarrow> s);
          key_salt = force_bytes key_salt;
          secret = force_bytes secret
      in case hashes e (str_upper e algorithm) of
           None \<Rightarrow> Inl InvalidAlgorithm
         | Some hasher \<Rightarrow>
             (case hasher of
                Inl err \<Rightarrow> Inl err
              | Inr d \<Rightarrow>
                  (let k = hash d (key_salt @ secret);
                       h = HMAC_new k d
                   in Inr (HMAC_update h (force_bytes val)))))"

subsection \<open>\<^verbatim>\<open>constant_time_compare\<close>\<close>

definition constant_time_compare :: "bytes_or_str \<Rightarrow> bytes_or_str \<Rightarrow> bool" where
  "constant_time_compare val1 val2 = (force_bytes val1 = force_bytes val2)"

subsection \<open>\<^verbatim>\<open>pbkdf2\<close>\<close>

text \<open>
  \<open>digest\<close> defaults to SHA-256, and a \<open>dklen\<close> of zero (the default) to the digest's
  size.  The iteration count and the length are natural numbers: the library refuses
  negative ones before it derives anything.
\<close>

definition pbkdf2 ::
  "env \<Rightarrow> bytes_or_str \<Rightarrow> bytes_or_str \<Rightarrow> nat \<Rightarrow> nat \<Rightarrow> hash_algorithm option \<Rightarrow> bytes" where
  "pbkdf2 e password salt iterations dklen digest =
     (let digest = (case digest of None \<Rightarrow> SHA256 e | Some d \<Rightarrow> d);
          dklen = (if dklen \<noteq> 0 then dklen else digest_size digest);
          password = force_bytes password;
          salt = force_bytes salt
      in PBKDF2HMAC_derive digest dklen salt iterations password)"

subsection \<open>\<^verbatim>\<open>FernetBytes\<close>\<close>

record fernet =
  key :: bytes_or_str
  signer :: Signer

definition FernetBytes_init :: "env \<Rightarrow> bytes_or_str option \<Rightarrow> Signer option \<Rightarrow> fernet" where
  "FernetBytes_init e k s =
     (let s = (case s of None \<Rightarrow> Signer_new (FernetSigner e) None None | Some s' \<Rightarrow> s')
      in \<lparr>key = py_or k (CRYPTOGRAPHY_KEY e), signer = s\<rparr>)"

definition FernetBytes_encrypt_from_parts ::
  "env \<Rightarrow> fernet \<Rightarrow> bytes \<Rightarrow> int \<Rightarrow> bytes \<Rightarrow> error + bytes" where
  "FernetBytes_encrypt_from_parts e self d current_time iv =
     (let padded_data = PKCS7_pad d in
      case Cipher (force_bytes (key self)) iv of
        Inl err \<Rightarrow> Inl err
      | Inr c \<Rightarrow>
          (case encryptor_run (AES e) c padded_data of
             Inl err \<Rightarrow> Inl err
           | Inr ciphertext \<Rightarrow> sign (signer self) (iv @ ciphertext) current_time))"

definition FernetBytes_encrypt_at_time ::
  "env \<Rightarrow> fernet \<Rightarrow> bytes_or_str \<Rightarrow> int \<Rightarrow> (nat \<Rightarrow> byte) \<Rightarrow> error + bytes" where
  "FernetBytes_encrypt_at_time e self d current_time rnd =
     (let d = force_bytes d;
          iv = os_urandom rnd 16
      in FernetBytes_encrypt_from_parts e self d current_time iv)"

definition FernetBytes_encrypt ::
  "env \<Rightarrow> fernet \<Rightarrow> bytes_or_str \<Rightarrow> (nat \<Rightarrow> byte) \<Rightarrow> error + bytes" where
  "FernetBytes_encrypt e self d rnd = FernetBytes_encrypt_at_time e self d (time_time e) rnd"

text \<open>
  \<open>decrypt\<close>: the call of \<open>unsign\<close> and the construction of the cipher stand outside
  both \<^verbatim>\<open>try\<close> blocks; only a \<open>ValueError\<close> of \<^verbatim>\<open>decryptor.finalize()\<close> and of
  \<^verbatim>\<open>unpadder.finalize()\<close> is turned into \<open>InvalidToken\<close>.
\<close>

definition FernetBytes_decrypt ::
  "env \<Rightarrow> fernet \<Rightarrow> bytes \<Rightarrow> int option \<Rightarrow> error + bytes" where
  "FernetBytes_decrypt e self d ttl =
     (case unsign (signer self) (time_time e) d ttl of
        Inl err \<Rightarrow> Inl err
      | Inr d \<Rightarrow>
          (let iv = take 16 d;
               ciphertext = drop 16 d
           in case Cipher (force_bytes (key self)) iv of
                Inl err \<Rightarrow> Inl err
              | Inr c \<Rightarrow>
                  (let plaintext_padded = decryptor_update (AES e) c ciphertext in
                   case decryptor_finalize ciphertext of
                     Inl err \<Rightarrow> (if is_ValueError err then Inl InvalidToken else Inl err)
                   | Inr fin \<Rightarrow>
                       (let plaintext_padded = plaintext_padded @ fin in
                        case PKCS7_unpad plaintext_padded of
                          Inl err \<Rightarrow> (if is_ValueError err then Inl InvalidToken else Inl err)
                        | Inr unpadded \<Rightarrow> Inr unpadded))))"

subsection \<open>\<^verbatim>\<open>Fernet\<close>\<close>

text \<open>
  A \<open>Fernet\<close> object has the fields of a \<open>FernetBytes\<close> object; the subclass overrides
  the constructor, \<^verbatim>\<open>_encrypt_from_parts\<close> and \<^verbatim>\<open>decrypt\<close>.  With no key the
  constructor calls the base constructor with no argument at all; with a key it decodes
  it, checks the length, and builds a new signer of the given signer's class over the
  first half.
\<close>

definition Fernet_init :: "env \<Rightarrow> bytes_or_str option \<Rightarrow> Signer option \<Rightarrow> error + fernet" where
  "Fernet_init e k s =
     (let s = (case s of None \<Rightarrow> Signer_new (FernetSigner e) None None | Some s' \<Rightarrow> s')
      in case k of
           None \<Rightarrow> Inr (FernetBytes_init e None None)
         | Some k \<Rightarrow>
             (case urlsafe_b64decode k of
                Inl err \<Rightarrow> Inl err
              | Inr k \<Rightarrow>
                  (if length k \<noteq> 32 then Inl ValueError
                   else Inr (FernetBytes_init e (Some (Bytes (drop 16 k)))
                              (Some (Signer_new (signer_type s) (Some (Bytes (take 16 k))) None))))))"

definition Fernet_encrypt_from_parts ::
  "env \<Rightarrow> fernet \<Rightarrow> bytes \<Rightarrow> int \<Rightarrow> bytes \<Rightarrow> error + bytes" where
  "Fernet_encrypt_from_parts e self d current_time iv =
     (case FernetBytes_encrypt_from_parts e self d current_time iv of
        Inl err \<Rightarrow> Inl err
      | Inr payload \<Rightarrow> Inr (urlsafe_b64encode payload))"

definition Fernet_encrypt_at_time ::
  "env \<Rightarrow> fernet \<Rightarrow> bytes_or_str \<Rightarrow> int \<Rightarrow> (nat \<Rightarrow> byte) \<Rightarrow> error + bytes" where
  "Fernet_encrypt_at_time e self d current_time rnd =
     (let d = force_bytes d;
          iv = os_urandom rnd 16
      in Fernet_encrypt_from_parts e self d current_time iv)"

definition Fernet_decrypt :: "env \<Rightarrow> fernet \<Rightarrow> bytes \<Rightarrow> int option \<Rightarrow> error + bytes" where
  "Fernet_decrypt e self token ttl =
     (case urlsafe_b64decode (Bytes token) of
        Inl err \<Rightarrow>
          (if err = TypeError \<or> err = binascii_Error then Inl InvalidToken else Inl err)
      | Inr d \<Rightarrow> FernetBytes_decrypt e self d ttl)"

section \<open>Contracts of the parameters\<close>

text \<open>
  Under the key \<open>k\<close> the block cipher maps 16-byte blocks to 16-byte blocks, and
  decryption undoes encryption.
\<close>

definition block_cipher_ok :: "block_cipher \<Rightarrow> bytes \<Rightarrow> bool" where
  "block_cipher_ok bc k =
     (\<forall>b. length b = 16 \<longrightarrow>
        length (encrypt_block bc k b) = 16 \<and> decrypt_block bc k (encrypt_block bc k b) = b)"

text \<open>A digest returns \<open>digest_size\<close> bytes, and at least one.\<close>

definition hash_ok :: "hash_algorithm \<Rightarrow> bool" where
  "hash_ok h = (0 < digest_size h \<and> (\<forall>m. length (hash h m) = digest_size h))"

text \<open>
  The signer signs every value at time \<open>t\<close>, and, asked for no maximal age, returns
  the value it signed, whatever the clock shows.
\<close>

definition signer_roundtrip :: "Signer \<Rightarrow> int \<Rightarrow> bool" where
  "signer_roundtrip s t =
     (\<forall>v. \<exists>tok. sign s v t = Inr tok \<and> (\<forall>now. unsign s now tok None = Inr v))"

section \<open>The derivation in the words of the specification\<close>

text \<open>
  Section 4.2: the intermediate key is the digest of \<open>key_salt\<close> followed by
  \<open>secret\<close>, the result is the HMAC of the value under that key and the same digest,
  and a name that names no known digest is an unsupported-algorithm error.  \<open>known\<close>
  gives the digest a name stands for.
\<close>

definition derive_hmac ::
  "(string \<Rightarrow> hash_algorithm option) \<Rightarrow> bytes \<Rightarrow> bytes \<Rightarrow> bytes \<Rightarrow> string \<Rightarrow> error + bytes" where
  "derive_hmac known key_salt val secret algorithm =
     (case known algorithm of
        None \<Rightarrow> Inl InvalidAlgorithm
      | Some h \<Rightarrow>
          (let derived_key = hash h (key_salt @ secret) in Inr (HMAC_digest h derived_key val)))"

section \<open>An instance of the parameters\<close>

text \<open>
  A block cipher, a digest and a signer class to instantiate the parameters with.  The
  cipher adds the first 16 key bytes to the block bit by bit; the digest repeats a
  checksum of the message.
\<close>

definition xor_cipher :: block_cipher where
  "xor_cipher =
     \<lparr>encrypt_block = (\<lambda>k b. xor_bytes b (take 16 k)),
      decrypt_block = (\<lambda>k b. xor_bytes b (take 16 k))\<rparr>"

definition checksum_digest :: "nat \<Rightarrow> nat \<Rightarrow> hash_algorithm" where
  "checksum_digest n b =
     \<lparr>digest_size = n, block_size = b,
      hash = (\<lambda>m. replicate n (sum_list m + of_nat (length m)))\<rparr>"

text \<open>
  The digest classes of the \<^verbatim>\<open>hashes\<close> module of the cryptography package, with their
  digest and block sizes.  \<open>SHAKE128\<close>, \<open>SHAKE256\<close>, \<open>BLAKE2b\<close> and \<open>BLAKE2s\<close> take a
  digest size, so that calling them with no argument raises \<open>TypeError\<close>.
\<close>

definition test_hashes :: "string \<Rightarrow> hasher option" where
  "test_hashes =
     map_of
       [(''SHA1'', Inr (checksum_digest 20 64)),
        (''SHA224'', Inr (checksum_digest 28 64)),
        (''SHA256'', Inr (checksum_digest 32 64)),
        (''SHA384'', Inr (checksum_digest 48 128)),
        (''SHA512'', Inr (checksum_digest 64 128)),
        (''SHA512_224'', Inr (checksum_digest 28 128)),
        (''SHA512_256'', Inr (checksum_digest 32 128)),
        (''SHA3_224'', Inr (checksum_digest 28 144)),
        (''SHA3_256'', Inr (checksum_digest 32 136)),
        (''SHA3_384'', Inr (checksum_digest 48 104)),
        (''SHA3_512'', Inr (checksum_digest 64 72)),
        (''MD5'', Inr (checksum_digest 16 64)),
        (''SM3'', Inr (checksum_digest 32 64)),
        (''SHAKE128'', Inl TypeError),
        (''SHAKE256'', Inl TypeError),
        (''BLAKE2b'', Inl TypeError),
        (''BLAKE2s'', Inl TypeError)]"

text \<open>Upper-casing of ASCII text, on which it is \<^verbatim>\<open>str.upper\<close>.\<close>

definition ascii_upper_char :: "char \<Rightarrow> char" where
  "ascii_upper_char c =
     (if (97::nat) \<le> of_char c \<and> of_char c \<le> (122::nat)
      then char_of (of_char c - (32::nat)) else c)"

definition ascii_upper :: "string \<Rightarrow> string" where
  "ascii_upper s = map ascii_upper_char s"

text \<open>The digest that a name stands for: the one its upper-cased form constructs.\<close>

definition test_known :: "string \<Rightarrow> hash_algorithm option" where
  "test_known n =
     (case test_hashes (ascii_upper n) of Some (Inr h) \<Rightarrow> Some h | _ \<Rightarrow> None)"

text \<open>
  Modelled from the spec: the signer class of \<^verbatim>\<open>core/signing.py\<close>, which is not among
  the sources.  After section 4.4: \<open>sign\<close> puts the time, as eight big-endian bytes,
  before the value and appends the HMAC of both, under a key derived from the signer's
  salt and key by the derivation of section 4.2; \<open>unsign\<close> recomputes the signature,
  compares in constant time, fails with \<open>BadSignature\<close> on a mismatch, and only then
  fails with \<open>SignatureExpired\<close> when a maximal age is given and the clock is more
  than that past the time in the token.
\<close>

definition timestamp_bytes :: "int \<Rightarrow> bytes" where
  "timestamp_bytes t = map (\<lambda>i. of_int (t div 256 ^ (7 - i))) [0 ..< 8]"

definition timestamp_of :: "bytes \<Rightarrow> int" where
  "timestamp_of b = foldl (\<lambda>a x. a * 256 + uint x) 0 b"

definition spec_signer_algorithm :: "string option \<Rightarrow> string" where
  "spec_signer_algorithm a = (case a of None \<Rightarrow> ''sha256'' | Some n \<Rightarrow> n)"

definition spec_signer_signature ::
  "(string \<Rightarrow> hash_algorithm option) \<Rightarrow> bytes \<Rightarrow> bytes_or_str \<Rightarrow>
   bytes_or_str option \<Rightarrow> string option \<Rightarrow> bytes \<Rightarrow> error + bytes" where
  "spec_signer_signature known salt secret k a v =
     derive_hmac known salt v (force_bytes (py_or k secret)) (spec_signer_algorithm a)"

definition spec_signer_sign ::
  "(string \<Rightarrow> hash_algorithm option) \<Rightarrow> bytes \<Rightarrow> bytes_or_str \<Rightarrow>
   bytes_or_str option \<Rightarrow> string option \<Rightarrow> bytes \<Rightarrow> int \<Rightarrow> error + bytes" where
  "spec_signer_sign known salt secret k a v t =
     (let payload = timestamp_bytes t @ v in
      case spec_signer_signature known salt secret k a payload of
        Inl err \<Rightarrow> Inl err
      | Inr sg \<Rightarrow> Inr (payload @ sg))"

definition spec_signer_unsign ::
  "(string \<Rightarrow> hash_algorithm option) \<Rightarrow> bytes \<Rightarrow> bytes_or_str \<Rightarrow>
   bytes_or_str option \<Rightarrow> string option \<Rightarrow> int \<Rightarrow> bytes \<Rightarrow> int option \<Rightarrow> error + bytes" where
  "spec_signer_unsign known salt secret k a now s max_age =
     (case known (spec_signer_algorithm a) of
        None \<Rightarrow> Inl InvalidAlgorithm
      | Some h \<Rightarrow>
          (if length s < 8 + digest_size h then Inl BadSignature
           else
             (let payload = take (length s - digest_size h) s;
                  sg = drop (length s - digest_size h) s
              in case spec_signer_signature known salt secret k a payload of
                   Inl err \<Rightarrow> Inl err
                 | Inr expected \<Rightarrow>
                     (if \<not> constant_time_compare (Bytes sg) (Bytes expected)
                      then Inl BadSignature
                      else
                        (case max_age of
                           None \<Rightarrow> Inr (drop 8 payload)
                         | Some age \<Rightarrow>
                             (if age < now - timestamp_of (take 8 payload)
                              then Inl SignatureExpired
                              else Inr (drop 8 payload)))))))"

definition spec_signer_type ::
  "(string \<Rightarrow> hash_algorithm option) \<Rightarrow> bytes \<Rightarrow> bytes_or_str \<Rightarrow> Signer_type" where
  "spec_signer_type known salt secret =
     \<lparr>signature_method = spec_signer_signature known salt secret,
      sign_method = spec_signer_sign known salt secret,
      unsign_method = spec_signer_unsign known salt secret\<rparr>"

text \<open>
  The settings of \<^verbatim>\<open>tests/settings.py\<close> (\<open>SECRET_KEY = 'test_key'\<close>), a 32-byte
  default key, and the clock at 1000 seconds.
\<close>

definition test_salt :: bytes where
  "test_salt = map of_char ''signer''"

definition test_signer_type :: Signer_type where
  "test_signer_type =
     spec_signer_type test_known test_salt (Str ''test_key'')"

definition test_env :: env where
  "test_env =
     \<lparr>SECRET_KEY = Str ''test_key'',
      CRYPTOGRAPHY_KEY = Bytes (replicate 32 7),
      FernetSigner = test_signer_type,
      str_upper = ascii_upper,
      hashes = test_hashes,
      SHA256 = checksum_digest 32 64,
      AES = xor_cipher,
      time_time = 1000\<rparr>"

text \<open>The entropy stream that yields 0, 1, 2, ...\<close>

definition test_rnd :: "nat \<Rightarrow> byte" where
  "test_rnd i = of_nat i"

text \<open>The engine that \<^verbatim>\<open>FernetBytes()\<close> builds from these settings.\<close>

definition test_fernet :: fernet where
  "test_fernet = FernetBytes_init test_env None None"

text \<open>
  The key of 32 zero bytes in URL-safe base64, and the engine that \<^verbatim>\<open>Fernet(key)\<close>
  builds from it.
\<close>

definition test_key_b64 :: bytes_or_str where
  "test_key_b64 = Str ''AAAAAAAAAAAAAAAAAAAAAAAAAAAAAAAAAAAAAAAAAAA=''"

definition test_fernet_b64 :: fernet where
  "test_fernet_b64 =
     \<lparr>key = Bytes (replicate 16 0),
      signer = Signer_new test_signer_type (Some (Bytes (replicate 16 0))) None\<rparr>"

text \<open>
  Four tokens of \<open>test_fernet\<close>, all signed at time 1000: the encryption of
  \<open>hello world\<close> under the IV 0, 1, ..., 15; a signed payload of three bytes; a
  signed payload whose ciphertext is three bytes long; and a signed payload whose one
  ciphertext block decrypts to sixteen zero bytes.
\<close>

definition token_hello :: bytes where
  "token_hello =
     [0, 0, 0, 0, 0, 0, 3, 232,
      0, 1, 2, 3, 4, 5, 6, 7, 8, 9, 10, 11, 12, 13, 14, 15,
      111, 99, 105, 104, 108, 34, 118, 111, 125, 98, 105, 9, 14, 15, 12, 13]
     @ replicate 32 32"

text \<open>The same data under \<open>test_fernet_b64\<close>, as the base64 text that \<open>Fernet\<close> returns.\<close>

definition token_hello_b64 :: bytes where
  "token_hello_b64 =
     map of_char
       (''AAAAAAAAA-gAAQIDBAUGBwgJCgsMDQ4PaGRub2slcWh6ZW4OCQgLCuDg4ODg4ODg''
        @ ''4ODg4ODg4ODg4ODg4ODg4ODg4ODg4ODg'')"

definition token_short :: bytes where
  "token_short = [0, 0, 0, 0, 0, 0, 3, 232, 1, 2, 3] @ replicate 32 160"

definition token_partial_block :: bytes where
  "token_partial_block =
     [0, 0, 0, 0, 0, 0, 3, 232,
      0, 1, 2, 3, 4, 5, 6, 7, 8, 9, 10, 11, 12, 13, 14, 15,
      1, 2, 3]
     @ replicate 32 160"

definition token_bad_padding :: bytes where
  "token_bad_padding =
     [0, 0, 0, 0, 0, 0, 3, 232] @ replicate 16 0 @ replicate 16 7 @ replicate 32 128"

section \<open>Padding and the mode of operation\<close>

lemma PKCS7_pad_length: "length (PKCS7_pad d) mod AES_block_size = 0"
  unfolding PKCS7_pad_def AES_block_size_def Let_def
  by (simp add: mod_simps) presburger

lemma PKCS7_pad_nonempty: "PKCS7_pad d \<noteq> []"
  unfolding PKCS7_pad_def AES_block_size_def Let_def
  by simp

lemma PKCS7_unpad_pad: "PKCS7_unpad (PKCS7_pad d) = Inr d"
proof -
  define n where "n = AES_block_size - length d mod AES_block_size"
  have n: "0 < n" "n \<le> 16" unfolding n_def AES_block_size_def by simp_all
  have p: "PKCS7_pad d = d @ replicate n (of_nat n)"
    by (simp add: PKCS7_pad_def n_def Let_def)
  have l: "last (PKCS7_pad d) = of_nat n" using n by (simp add: p)
  have u: "unat (of_nat n :: byte) = n" using n by (simp add: unat_of_nat)
  have m: "length (PKCS7_pad d) mod AES_block_size = 0" by (rule PKCS7_pad_length)
  show ?thesis
    unfolding PKCS7_unpad_def l u Let_def using n m PKCS7_pad_nonempty[of d]
    by (simp add: p AES_block_size_def list_all_iff)
qed

lemma blocks_Nil [simp]: "blocks [] = []"
  by (simp add: blocks.simps)

lemma xor_bytes_cancel: "length a = length b \<Longrightarrow> xor_bytes (xor_bytes a b) b = a"
proof (induction a arbitrary: b)
  case Nil
  then show ?case by (simp add: xor_bytes_def)
next
  case (Cons x xs)
  then obtain y ys where b: "b = y # ys" by (cases b) auto
  have xy: "(x XOR y) XOR y = x" by (simp add: xor.assoc)
  have "xor_bytes (xor_bytes xs ys) ys = xs" using Cons b by simp
  then show ?case using xy by (simp add: xor_bytes_def b)
qed

lemma blocks_unfold:
  "d \<noteq> [] \<Longrightarrow> blocks d = take AES_block_size d # blocks (drop AES_block_size d)"
  by (subst blocks.simps) simp

lemma concat_blocks: "concat (blocks d) = d"
proof (induction d rule: blocks.induct)
  case (1 d)
  show ?case
  proof (cases "d = []")
    case True
    then show ?thesis by simp
  next
    case False
    with "1.IH" have "concat (blocks (drop AES_block_size d)) = drop AES_block_size d"
      by simp
    then show ?thesis by (simp add: blocks_unfold[OF False])
  qed
qed

lemma blocks_append: "length c = 16 \<Longrightarrow> blocks (c @ r) = c # blocks r"
  by (subst blocks.simps) (auto simp: AES_block_size_def)

lemma xor_bytes_length: "length (xor_bytes a b) = min (length a) (length b)"
  by (simp add: xor_bytes_def)

lemma blocks_all_16:
  "length d mod 16 = 0 \<Longrightarrow> b \<in> set (blocks d) \<Longrightarrow> length b = 16"
proof (induction d rule: blocks.induct)
  case (1 d)
  show ?case
  proof (cases "d = []")
    case True
    with "1.prems" show ?thesis by simp
  next
    case False
    with "1.prems"(1) have len: "16 \<le> length d" by (cases "length d < 16") auto
    have "(length d - 16) mod 16 = 0"
      using "1.prems"(1) len by presburger
    then have m: "length (drop AES_block_size d) mod 16 = 0"
      by (simp add: AES_block_size_def)
    from "1.prems"(2) have "b = take AES_block_size d \<or> b \<in> set (blocks (drop AES_block_size d))"
      by (simp add: blocks_unfold[OF False])
    then show ?thesis
    proof
      assume "b = take AES_block_size d"
      then show ?thesis using len by (simp add: AES_block_size_def)
    next
      assume "b \<in> set (blocks (drop AES_block_size d))"
      then show ?thesis using "1.IH"[OF False m] by simp
    qed
  qed
qed

lemma length_blocks: "length d mod 16 = 0 \<Longrightarrow> 16 * length (blocks d) = length d"
proof (induction d rule: blocks.induct)
  case (1 d)
  show ?case
  proof (cases "d = []")
    case True
    then show ?thesis by simp
  next
    case False
    with "1.prems"(1) have len: "16 \<le> length d" by (cases "length d < 16") auto
    have "(length d - 16) mod 16 = 0"
      using "1.prems"(1) len by presburger
    then have m: "length (drop AES_block_size d) mod 16 = 0"
      by (simp add: AES_block_size_def)
    have "16 * length (blocks (drop AES_block_size d)) = length d - 16"
      using "1.IH"[OF False m] by (simp add: AES_block_size_def)
    then show ?thesis using len by (simp add: blocks_unfold[OF False])
  qed
qed

lemma cbc_encrypt_length:
  assumes ok: "block_cipher_ok bc k"
  shows "(\<And>b. b \<in> set bs \<Longrightarrow> length b = 16) \<Longrightarrow> length prev = 16 \<Longrightarrow>
    length (cbc_encrypt_blocks (encrypt_block bc k) prev bs) = 16 * length bs"
proof (induction bs arbitrary: prev)
  case Nil
  then show ?case by simp
next
  case (Cons p ps)
  have lp: "length p = 16" using Cons.prems(1)[of p] by simp
  have lx: "length (xor_bytes p prev) = 16" using lp Cons.prems(2) by (simp add: xor_bytes_length)
  then have lc: "length (encrypt_block bc k (xor_bytes p prev)) = 16"
    using ok by (simp add: block_cipher_ok_def)
  have "length (cbc_encrypt_blocks (encrypt_block bc k) (encrypt_block bc k (xor_bytes p prev)) ps)
        = 16 * length ps"
    using Cons.IH[OF _ lc] Cons.prems(1) by simp
  then show ?case using lc by (simp add: Let_def)
qed

lemma cbc_decrypt_encrypt:
  assumes ok: "block_cipher_ok bc k"
  shows "(\<And>b. b \<in> set bs \<Longrightarrow> length b = 16) \<Longrightarrow> length prev = 16 \<Longrightarrow>
    cbc_decrypt_blocks (decrypt_block bc k) prev
      (blocks (cbc_encrypt_blocks (encrypt_block bc k) prev bs)) = concat bs"
proof (induction bs arbitrary: prev)
  case Nil
  then show ?case by simp
next
  case (Cons p ps)
  define x where "x = xor_bytes p prev"
  define c where "c = encrypt_block bc k x"
  have lp: "length p = 16" using Cons.prems(1)[of p] by simp
  have lx: "length x = 16" using lp Cons.prems(2) by (simp add: x_def xor_bytes_length)
  then have lc: "length c = 16" and dc: "decrypt_block bc k c = x"
    using ok by (simp_all add: block_cipher_ok_def c_def)
  have px: "xor_bytes x prev = p" using lp Cons.prems(2) by (simp add: x_def xor_bytes_cancel)
  have ih: "cbc_decrypt_blocks (decrypt_block bc k) c
      (blocks (cbc_encrypt_blocks (encrypt_block bc k) c ps)) = concat ps"
    using Cons.IH[OF _ lc] Cons.prems(1) by simp
  have "cbc_encrypt_blocks (encrypt_block bc k) prev (p # ps)
        = c @ cbc_encrypt_blocks (encrypt_block bc k) c ps"
    by (simp add: Let_def c_def x_def)
  then have "cbc_decrypt_blocks (decrypt_block bc k) prev
      (blocks (cbc_encrypt_blocks (encrypt_block bc k) prev (p # ps)))
      = xor_bytes (decrypt_block bc k c) prev
        @ cbc_decrypt_blocks (decrypt_block bc k) c
            (blocks (cbc_encrypt_blocks (encrypt_block bc k) c ps))"
    by (simp add: blocks_append[OF lc])
  then show ?case by (simp add: dc px ih)
qed

section \<open>The instance meets the contracts\<close>

lemma ascii_upper_sha256: "ascii_upper ''sha256'' = ''SHA256''"
  by (simp add: ascii_upper_def ascii_upper_char_def char_of_def bit_0)

lemma test_known_sha256: "test_known ''sha256'' = Some (checksum_digest 32 64)"
  by (simp add: test_known_def ascii_upper_sha256 test_hashes_def)

lemma hash_ok_checksum: "0 < n \<Longrightarrow> hash_ok (checksum_digest n b)"
  by (simp add: hash_ok_def checksum_digest_def)

lemma length_HMAC_digest: "hash_ok h \<Longrightarrow> length (HMAC_digest h k m) = digest_size h"
  by (simp add: HMAC_digest_def hash_ok_def Let_def)

lemma length_timestamp_bytes: "length (timestamp_bytes t) = 8"
  by (simp add: timestamp_bytes_def)

lemma test_known_default:
  "test_known (spec_signer_algorithm None) = Some (checksum_digest 32 64)"
  by (simp add: spec_signer_algorithm_def test_known_sha256)

lemma test_signature:
  "spec_signer_signature test_known salt secret k None v =
     Inr (HMAC_digest (checksum_digest 32 64)
            (hash (checksum_digest 32 64) (salt @ force_bytes (py_or k secret))) v)"
  by (simp add: spec_signer_signature_def derive_hmac_def test_known_default Let_def)

lemma test_signature_length:
  "spec_signer_signature test_known salt secret k None v = Inr sg
   \<Longrightarrow> length sg = 32"
  using length_HMAC_digest[OF hash_ok_checksum, of 32 64]
  by (auto simp: test_signature checksum_digest_def)

lemma test_signer_unsign_sign:
  assumes "sign (Signer_new test_signer_type k None) v t = Inr tok"
  shows "unsign (Signer_new test_signer_type k None) now tok None = Inr v"
proof -
  let ?known = "test_known"
  let ?salt = "test_salt"
  let ?secret = "Str ''test_key''"
  obtain sg where sg: "spec_signer_signature ?known ?salt ?secret k None (timestamp_bytes t @ v) = Inr sg"
    by (simp add: test_signature)
  have lsg: "length sg = 32" using test_signature_length[OF sg] .
  have tok: "tok = (timestamp_bytes t @ v) @ sg"
    using assms sg
    by (simp add: sign_def Signer_new_def test_signer_type_def spec_signer_type_def
        spec_signer_sign_def Let_def)
  have ds: "digest_size (checksum_digest 32 64) = 32" by (simp add: checksum_digest_def)
  have len: "\<not> length tok < 40" by (simp add: tok lsg length_timestamp_bytes)
  have tk: "take (length tok - 32) tok = timestamp_bytes t @ v"
    and dr: "drop (length tok - 32) tok = sg"
    by (simp_all add: tok lsg)
  show ?thesis
    unfolding unsign_def Signer_new_def test_signer_type_def spec_signer_type_def
    by (simp add: spec_signer_unsign_def test_known_default ds len tk dr sg Let_def
        constant_time_compare_def force_bytes_def length_timestamp_bytes)
qed

lemma test_signer_signs:
  "\<exists>tok. sign (Signer_new test_signer_type k None) v t = Inr tok"
  by (simp add: sign_def Signer_new_def test_signer_type_def spec_signer_type_def
        spec_signer_sign_def Let_def test_signature)

lemma test_signer_roundtrip: "signer_roundtrip (Signer_new test_signer_type k None) t"
  unfolding signer_roundtrip_def
  using test_signer_signs test_signer_unsign_sign by blast

lemma test_signer_short: "length tok < 40 \<Longrightarrow>
  unsign (Signer_new test_signer_type k None) now tok ttl = Inl BadSignature"
  unfolding unsign_def Signer_new_def test_signer_type_def spec_signer_type_def
  by (simp add: spec_signer_unsign_def test_known_default checksum_digest_def)

lemma xor_cipher_ok: "16 \<le> length k \<Longrightarrow> block_cipher_ok xor_cipher k"
  unfolding block_cipher_ok_def xor_cipher_def
  by (simp add: xor_bytes_length xor_bytes_cancel)

section \<open>Base64 decoding undoes encoding\<close>

lemma unat_table_b2a:
  "unat (table_b2a_base64 v) =
     (let n = unat v in
      if n < 26 then 65 + n else if n < 52 then 71 + n else if n < 62 then n - 4
      else if n = 62 then 43 else 47)"
proof -
  have a: "n < 26 \<Longrightarrow> unat (of_nat (65 + n) :: byte) = 65 + n" for n
    by (simp only: unat_of_nat) simp
  have b: "n < 52 \<Longrightarrow> unat (of_nat (71 + n) :: byte) = 71 + n" for n
    by (simp only: unat_of_nat) simp
  have c: "n < 62 \<Longrightarrow> unat (of_nat (n - 4) :: byte) = n - 4" for n
    by (simp only: unat_of_nat) simp
  show ?thesis
    unfolding table_b2a_base64_def Let_def
    by (simp only: a b c if_distrib[of unat] cong: if_cong) simp
qed

lemma table_inverse:
  assumes "unat v < 64"
  shows "table_a2b_base64 (table_b2a_base64 v) = Some v"
proof -
  have v: "of_nat (unat v) = v" by simp
  have d: "of_nat (65 + unat v - 65) = v" "of_nat (71 + unat v - 71) = v"
    "unat v \<ge> 52 \<Longrightarrow> of_nat (unat v - 4 + 4) = v"
    by (simp_all only: add_diff_cancel_left' v le_add_diff_inverse2) 
  have e: "unat v = 62 \<Longrightarrow> v = 62" "unat v = 63 \<Longrightarrow> v = 63"
    by (metis v of_nat_numeral)+
  consider "unat v < 26" | "26 \<le> unat v" "unat v < 52" | "52 \<le> unat v" "unat v < 62"
    | "unat v = 62" | "unat v = 63"
    using assms by linarith
  then show ?thesis
  proof cases
    case 1
    then show ?thesis
      unfolding table_a2b_base64_def unat_table_b2a Let_def using d by simp
  next
    case 2
    then show ?thesis
      unfolding table_a2b_base64_def unat_table_b2a Let_def using d by simp
  next
    case 3
    then have "unat v - 4 + 4 = unat v" by simp
    with 3 show ?thesis
      unfolding table_a2b_base64_def unat_table_b2a Let_def using v by (simp; arith)
  next
    case 4
    then show ?thesis
      unfolding table_a2b_base64_def unat_table_b2a Let_def using e by simp
  next
    case 5
    then show ?thesis
      unfolding table_a2b_base64_def unat_table_b2a Let_def using e by simp
  qed
qed

lemma table_not_special:
  "table_b2a_base64 v \<noteq> BASE64_PAD" "table_b2a_base64 v \<noteq> 45" "table_b2a_base64 v \<noteq> 95"
proof -
  have "unat (table_b2a_base64 v) \<noteq> 61 \<and> unat (table_b2a_base64 v) \<noteq> 45
        \<and> unat (table_b2a_base64 v) \<noteq> 95"
    unfolding unat_table_b2a Let_def by (simp; arith)
  then show "table_b2a_base64 v \<noteq> BASE64_PAD" "table_b2a_base64 v \<noteq> 45"
    "table_b2a_base64 v \<noteq> 95"
    unfolding BASE64_PAD_def by auto
qed

lemma masks: "(a::byte) AND 3 = take_bit 2 a" "(a::byte) AND 15 = take_bit 4 a"
  "(a::byte) AND 63 = take_bit 6 a"
  by (simp_all add: take_bit_eq_mask mask_eq_exp_minus_1)

lemma byte_eqI:
  assumes "\<And>n. n \<in> {0, 1, 2, 3, 4, 5, 6, 7 :: nat} \<Longrightarrow> bit x n = bit y n"
  shows "(x::byte) = y"
proof (rule bit_word_eqI)
  fix n assume "n < LENGTH(8)"
  then have "n \<in> {0, 1, 2, 3, 4, 5, 6, 7 :: nat}" by auto
  then show "bit x n = bit y n" by (rule assms)
qed

lemma regroup:
  "push_bit 2 (drop_bit 2 (a::byte)) OR drop_bit 4 (push_bit 4 (a AND 3) OR drop_bit 4 (b::byte)) = a"
  "push_bit 4 ((push_bit 4 (a AND 3) OR drop_bit 4 b) AND 15)
     OR drop_bit 2 (push_bit 2 (b AND 15) OR drop_bit 6 (c::byte)) = b"
  "push_bit 6 ((push_bit 2 (b AND 15) OR drop_bit 6 c) AND 3) OR (c AND 63) = c"
  "push_bit 2 (drop_bit 2 a) OR drop_bit 4 (push_bit 4 (a AND 3)) = a"
  "push_bit 4 ((push_bit 4 (a AND 3) OR drop_bit 4 b) AND 15)
     OR drop_bit 2 (push_bit 2 (b AND 15)) = b"
  unfolding masks
  by (rule byte_eqI; elim insertE emptyE; simp add: bit_simps)+

lemma sextets:
  "unat (drop_bit 2 (a::byte)) < 64"
  "unat (push_bit 4 (a AND 3) OR drop_bit 4 (b::byte)) < 64"
  "unat (push_bit 2 (b AND 15) OR drop_bit 6 (c::byte)) < 64"
  "unat (c AND 63) < 64"
  "unat (push_bit 4 (a AND 3)) < 64"
  "unat (push_bit 2 (b AND 15)) < 64"
proof -
  have s: "take_bit 6 x = x \<Longrightarrow> unat x < 64" for x :: byte
  proof -
    assume h: "take_bit 6 x = x"
    have "unat (take_bit 6 x) < 2 ^ 6"
      unfolding unsigned_take_bit_eq by (rule take_bit_nat_less_exp)
    with h show ?thesis by simp
  qed
  show "unat (drop_bit 2 a) < 64"
    by (rule s, rule byte_eqI; elim insertE emptyE; auto simp: bit_simps dest: bit_imp_le_length)
  show "unat (push_bit 4 (a AND 3) OR drop_bit 4 b) < 64"
    unfolding masks by (rule s, rule byte_eqI; elim insertE emptyE; auto simp: bit_simps dest: bit_imp_le_length)
  show "unat (push_bit 2 (b AND 15) OR drop_bit 6 c) < 64"
    unfolding masks by (rule s, rule byte_eqI; elim insertE emptyE; auto simp: bit_simps dest: bit_imp_le_length)
  show "unat (c AND 63) < 64"
    unfolding masks by (rule s, rule byte_eqI; elim insertE emptyE; auto simp: bit_simps dest: bit_imp_le_length)
  show "unat (push_bit 4 (a AND 3)) < 64"
    unfolding masks by (rule s, rule byte_eqI; elim insertE emptyE; auto simp: bit_simps dest: bit_imp_le_length)
  show "unat (push_bit 2 (b AND 15)) < 64"
    unfolding masks by (rule s, rule byte_eqI; elim insertE emptyE; auto simp: bit_simps dest: bit_imp_le_length)
qed

lemma a2b_loop_b2a: "a2b_loop 0 0 0 out (b2a_base64 xs) = Inr (out @ xs)"
proof (induction xs arbitrary: out rule: b2a_base64.induct)
  case 1
  then show ?case by simp
next
  case (2 a)
  define s0 where "s0 = drop_bit 2 a"
  define s1 where "s1 = push_bit 4 (a AND 3)"
  have t: "table_a2b_base64 (table_b2a_base64 s0) = Some s0"
    "table_a2b_base64 (table_b2a_base64 s1) = Some s1"
    unfolding s0_def s1_def by (rule table_inverse, rule sextets)+
  have r: "push_bit 2 s0 OR drop_bit 4 s1 = a"
    unfolding s0_def s1_def by (rule regroup)
  have e: "b2a_base64 [a] = [table_b2a_base64 s0, table_b2a_base64 s1, BASE64_PAD, BASE64_PAD]"
    unfolding s0_def s1_def by (simp only: b2a_base64.simps)
  show ?case
    unfolding e by (simp add: t r r[simplified] table_not_special)
next
  case (3 a b)
  define s0 where "s0 = drop_bit 2 a"
  define s1 where "s1 = push_bit 4 (a AND 3) OR drop_bit 4 b"
  define s2 where "s2 = push_bit 2 (b AND 15)"
  have t: "table_a2b_base64 (table_b2a_base64 s0) = Some s0"
    "table_a2b_base64 (table_b2a_base64 s1) = Some s1"
    "table_a2b_base64 (table_b2a_base64 s2) = Some s2"
    unfolding s0_def s1_def s2_def by (rule table_inverse, rule sextets)+
  have r: "push_bit 2 s0 OR drop_bit 4 s1 = a" "push_bit 4 (s1 AND 15) OR drop_bit 2 s2 = b"
    unfolding s0_def s1_def s2_def by (rule regroup)+
  have e: "b2a_base64 [a, b]
      = [table_b2a_base64 s0, table_b2a_base64 s1, table_b2a_base64 s2, BASE64_PAD]"
    unfolding s0_def s1_def s2_def by (simp only: b2a_base64.simps)
  show ?case
    unfolding e by (simp add: t r r[simplified] table_not_special)
next
  case (4 a b c rest)
  define s0 where "s0 = drop_bit 2 a"
  define s1 where "s1 = push_bit 4 (a AND 3) OR drop_bit 4 b"
  define s2 where "s2 = push_bit 2 (b AND 15) OR drop_bit 6 c"
  define s3 where "s3 = c AND 63"
  have t: "table_a2b_base64 (table_b2a_base64 s0) = Some s0"
    "table_a2b_base64 (table_b2a_base64 s1) = Some s1"
    "table_a2b_base64 (table_b2a_base64 s2) = Some s2"
    "table_a2b_base64 (table_b2a_base64 s3) = Some s3"
    unfolding s0_def s1_def s2_def s3_def by (rule table_inverse, rule sextets)+
  have r: "push_bit 2 s0 OR drop_bit 4 s1 = a" "push_bit 4 (s1 AND 15) OR drop_bit 2 s2 = b"
    "push_bit 6 (s2 AND 3) OR s3 = c"
    unfolding s0_def s1_def s2_def s3_def by (rule regroup)+
  have e: "b2a_base64 (a # b # c # rest)
      = [table_b2a_base64 s0, table_b2a_base64 s1, table_b2a_base64 s2, table_b2a_base64 s3]
        @ b2a_base64 rest"
    unfolding s0_def s1_def s2_def s3_def by (simp only: b2a_base64.simps)
  have "a2b_loop 0 0 0 out (b2a_base64 (a # b # c # rest))
        = a2b_loop 0 0 0 (out @ [a, b, c]) (b2a_base64 rest)"
    unfolding e by (simp add: t r r[simplified] table_not_special)
  then show ?case by (simp add: "4.IH")
qed

lemma b2a_base64_chars: "c \<in> set (b2a_base64 xs) \<Longrightarrow> c \<noteq> 45 \<and> c \<noteq> 95"
  by (induction xs rule: b2a_base64.induct)
     (auto simp: table_not_special BASE64_PAD_def)

lemma urlsafe_translation_inverse:
  "c \<noteq> 45 \<Longrightarrow> c \<noteq> 95 \<Longrightarrow> urlsafe_decode_translation (urlsafe_encode_translation c) = c"
  by (simp add: urlsafe_decode_translation_def urlsafe_encode_translation_def)

lemma urlsafe_b64decode_b64encode: "urlsafe_b64decode (Bytes (urlsafe_b64encode s)) = Inr s"
proof -
  have "map urlsafe_decode_translation (map urlsafe_encode_translation (b2a_base64 s))
        = map (\<lambda>c. c) (b2a_base64 s)"
    unfolding map_map
    by (rule map_cong[OF refl]) (simp add: b2a_base64_chars urlsafe_translation_inverse)
  then show ?thesis
    by (simp add: urlsafe_b64decode_def urlsafe_b64encode_def bytes_from_decode_types_def
        a2b_base64_def a2b_loop_b2a[of "[]", simplified])
qed

section \<open>Encrypting and decrypting with the engine\<close>

lemma length_os_urandom: "length (os_urandom rnd n) = n"
  by (simp add: os_urandom_def)

lemma cbc_roundtrip:
  assumes ok: "block_cipher_ok bc k" and iv: "length iv = 16" and m: "length p mod 16 = 0"
  shows "length (cbc_encrypt_blocks (encrypt_block bc k) iv (blocks p)) = length p"
    and "cbc_decrypt_blocks (decrypt_block bc k) iv
           (blocks (cbc_encrypt_blocks (encrypt_block bc k) iv (blocks p))) = p"
proof -
  have b: "\<And>b. b \<in> set (blocks p) \<Longrightarrow> length b = 16"
    using blocks_all_16[OF m] .
  show "length (cbc_encrypt_blocks (encrypt_block bc k) iv (blocks p)) = length p"
    using cbc_encrypt_length[OF ok b iv] length_blocks[OF m] by simp
  show "cbc_decrypt_blocks (decrypt_block bc k) iv
           (blocks (cbc_encrypt_blocks (encrypt_block bc k) iv (blocks p))) = p"
    using cbc_decrypt_encrypt[OF ok b iv] concat_blocks[of p] by simp
qed

lemma FernetBytes_roundtrip:
  assumes kk: "AES_key_ok (force_bytes (key self))"
    and bc: "block_cipher_ok (AES e) (force_bytes (key self))"
    and sr: "signer_roundtrip (signer self) t"
    and iv: "length iv = 16"
  shows "\<exists>tok. FernetBytes_encrypt_from_parts e self d t iv = Inr tok
           \<and> (\<forall>now. FernetBytes_decrypt (e\<lparr>time_time := now\<rparr>) self tok None = Inr d)"
proof -
  define k where "k = force_bytes (key self)"
  define p where "p = PKCS7_pad d"
  define c where "c = \<lparr>cipher_key = k, cipher_iv = iv\<rparr>"
  define ct where "ct = cbc_encrypt_blocks (encrypt_block (AES e) k) iv (blocks p)"
  have pm: "length p mod 16 = 0"
    using PKCS7_pad_length[of d] by (simp add: p_def AES_block_size_def)
  have ci: "Cipher k iv = Inr c"
    using kk iv by (simp add: Cipher_def c_def k_def AES_block_size_def)
  have er: "encryptor_run (AES e) c p = Inr ct"
    using pm by (simp add: encryptor_run_def c_def ct_def AES_block_size_def)
  have lct: "length ct = length p"
    unfolding ct_def using cbc_roundtrip(1)[OF bc[folded k_def] iv pm] .
  have dec: "cbc_decrypt_blocks (decrypt_block (AES e) k) iv (blocks ct) = p"
    unfolding ct_def using cbc_roundtrip(2)[OF bc[folded k_def] iv pm] .
  from sr obtain tok where sg: "sign (signer self) (iv @ ct) t = Inr tok"
    and us: "\<And>now. unsign (signer self) now tok None = Inr (iv @ ct)"
    unfolding signer_roundtrip_def by blast
  have enc: "FernetBytes_encrypt_from_parts e self d t iv = Inr tok"
    unfolding FernetBytes_encrypt_from_parts_def
    by (simp add: Let_def p_def[symmetric] k_def[symmetric] ci er sg)
  have fin: "decryptor_finalize ct = Inr []"
    using pm lct by (simp add: decryptor_finalize_def AES_block_size_def)
  have upd: "decryptor_update (AES e) c ct = p"
    using pm lct dec by (simp add: decryptor_update_def c_def AES_block_size_def)
  have un: "PKCS7_unpad p = Inr d"
    unfolding p_def by (rule PKCS7_unpad_pad)
  have "FernetBytes_decrypt (e\<lparr>time_time := now\<rparr>) self tok None = Inr d" for now
    unfolding FernetBytes_decrypt_def
    by (simp add: us iv k_def[symmetric] ci fin upd un Let_def)
  with enc show ?thesis by blast
qed

lemma Fernet_roundtrip:
  assumes kk: "AES_key_ok (force_bytes (key self))"
    and bc: "block_cipher_ok (AES e) (force_bytes (key self))"
    and sr: "signer_roundtrip (signer self) t"
    and iv: "length iv = 16"
  shows "\<exists>tok. Fernet_encrypt_from_parts e self d t iv = Inr tok
           \<and> (\<forall>now. Fernet_decrypt (e\<lparr>time_time := now\<rparr>) self tok None = Inr d)"
proof -
  from FernetBytes_roundtrip[OF kk bc sr iv, of d]
  obtain payload where enc: "FernetBytes_encrypt_from_parts e self d t iv = Inr payload"
    and dec: "\<And>now. FernetBytes_decrypt (e\<lparr>time_time := now\<rparr>) self payload None = Inr d"
    by blast
  have "Fernet_encrypt_from_parts e self d t iv = Inr (urlsafe_b64encode payload)"
    by (simp add: Fernet_encrypt_from_parts_def enc)
  moreover have "Fernet_decrypt (e\<lparr>time_time := now\<rparr>) self (urlsafe_b64encode payload) None = Inr d"
    for now
    by (simp add: Fernet_decrypt_def urlsafe_b64decode_b64encode dec)
  ultimately show ?thesis by blast
qed

lemma Cipher_short_iv: "length iv < 16 \<Longrightarrow> Cipher k iv = Inl ValueError"
  by (simp add: Cipher_def AES_block_size_def)

lemma decryptor_finalize_error: "decryptor_finalize ct = Inl err \<Longrightarrow> err = ValueError"
  by (simp add: decryptor_finalize_def split: if_splits)

lemma PKCS7_unpad_error: "PKCS7_unpad d = Inl err \<Longrightarrow> err = ValueError"
  by (simp add: PKCS7_unpad_def Let_def split: if_splits)

lemma a2b_loop_error: "a2b_loop q l p out s = Inl err \<Longrightarrow> err = binascii_Error"
  by (induction q l p out s rule: a2b_loop.induct)
     (simp_all split: if_splits option.splits)

lemma replicate_numeral: "replicate (numeral n) x = x # replicate (pred_numeral n) x"
  by (simp add: numeral_eq_Suc)

section \<open>Evaluating the instance\<close>

lemmas test_signer_eval =
  sign_def unsign_def Signer_new_def test_signer_type_def spec_signer_type_def
  spec_signer_sign_def spec_signer_unsign_def spec_signer_signature_def derive_hmac_def
  spec_signer_algorithm_def test_known_sha256
  Let_def timestamp_bytes_def timestamp_of_def upt_rec HMAC_digest_def checksum_digest_def
  test_salt_def force_bytes_def replicate_numeral constant_time_compare_def
  test_fernet_def FernetBytes_init_def test_env_def

lemma test_fernet_fields:
  "key test_fernet = Bytes (replicate 32 7)"
  "signer test_fernet = Signer_new test_signer_type None None"
  "AES test_env = xor_cipher"
  "time_time test_env = 1000"
  by (simp_all add: test_fernet_def FernetBytes_init_def test_env_def)

lemmas test_engine_eval =
  FernetBytes_encrypt_at_time_def FernetBytes_encrypt_from_parts_def
  os_urandom_def test_rnd_def PKCS7_pad_def AES_block_size_def Cipher_def AES_key_ok_def
  encryptor_run_def blocks_append[of _ "[]", simplified] xor_cipher_def xor_bytes_def

lemma encrypt_token_hello:
  "FernetBytes_encrypt_at_time test_env test_fernet (Str ''hello world'') 1000 test_rnd
   = Inr token_hello"
  by (simp add: token_hello_def test_engine_eval test_signer_eval)

lemma sign_token_short: "sign (signer test_fernet) [1, 2, 3] 1000 = Inr token_short"
  by (simp add: token_short_def test_signer_eval)

lemma sign_token_partial_block:
  "sign (signer test_fernet)
     ([0, 1, 2, 3, 4, 5, 6, 7, 8, 9, 10, 11, 12, 13, 14, 15] @ [1, 2, 3]) 1000
   = Inr token_partial_block"
  by (simp add: token_partial_block_def test_signer_eval)

lemma sign_token_bad_padding:
  "sign (signer test_fernet) (replicate 16 0 @ replicate 16 7) 1000 = Inr token_bad_padding"
  by (simp add: token_bad_padding_def test_signer_eval)

lemma unsign_token_short:
  "unsign (signer test_fernet) (time_time test_env) token_short None = Inr [1, 2, 3]"
  using sign_token_short unfolding test_fernet_fields by (rule test_signer_unsign_sign)

lemma unsign_token_partial_block:
  "unsign (signer test_fernet) (time_time test_env) token_partial_block None
   = Inr ([0, 1, 2, 3, 4, 5, 6, 7, 8, 9, 10, 11, 12, 13, 14, 15] @ [1, 2, 3])"
  using sign_token_partial_block unfolding test_fernet_fields
  by (rule test_signer_unsign_sign)

lemma unsign_token_bad_padding:
  "unsign (signer test_fernet) (time_time test_env) token_bad_padding None
   = Inr (replicate 16 0 @ replicate 16 7)"
  using sign_token_bad_padding unfolding test_fernet_fields
  by (rule test_signer_unsign_sign)

lemma unsign_token_hello_tampered:
  "unsign (signer test_fernet) (time_time test_env) (butlast token_hello @ [33]) None
   = Inl BadSignature"
  by (simp add: token_hello_def test_signer_eval)

lemma unsign_token_hello_expired:
  "unsign (signer test_fernet) 1002 token_hello (Some 1) = Inl SignatureExpired"
  by (simp add: token_hello_def test_signer_eval)

lemma urlsafe_b64decode_test_key: "urlsafe_b64decode test_key_b64 = Inr (replicate 32 0)"
  by (simp add: test_key_b64_def urlsafe_b64decode_def bytes_from_decode_types_def
      a2b_base64_def urlsafe_decode_translation_def table_a2b_base64_def BASE64_PAD_def
      replicate_numeral)

lemma encrypt_token_hello_b64:
  "Fernet_encrypt_at_time test_env test_fernet_b64 (Str ''hello world'') 1000 test_rnd
   = Inr token_hello_b64"
  by (simp add: token_hello_b64_def Fernet_encrypt_at_time_def Fernet_encrypt_from_parts_def
      test_fernet_b64_def test_engine_eval test_signer_eval
      test_fernet_fields urlsafe_b64encode_def urlsafe_encode_translation_def
      table_b2a_base64_def BASE64_PAD_def)

lemma py_or_Bytes: "b \<noteq> [] \<Longrightarrow> py_or (Some (Bytes b)) d = Bytes b"
  by (cases b) simp_all

section \<open>The length of a PBKDF2 key\<close>

lemma length_concat_map_const:
  "(\<And>x. length (f x) = m) \<Longrightarrow> length (concat (map f xs)) = m * length xs"
  by (induction xs) simp_all

lemma length_pbkdf2_rounds:
  "hash_ok h \<Longrightarrow> length acc = digest_size h \<Longrightarrow>
   length (pbkdf2_rounds h p n u acc) = digest_size h"
proof (induction n arbitrary: u acc)
  case 0
  then show ?case by simp
next
  case (Suc n)
  have "length (xor_bytes acc (HMAC_digest h p u)) = digest_size h"
    using Suc.prems by (simp add: xor_bytes_length length_HMAC_digest)
  then show ?case using Suc.IH[OF Suc.prems(1)] by (simp add: Let_def)
qed

lemma length_pbkdf2_F: "hash_ok h \<Longrightarrow> length (pbkdf2_F h p s c i) = digest_size h"
  by (simp add: pbkdf2_F_def Let_def length_pbkdf2_rounds length_HMAC_digest)

lemma ceil_div_covers: "0 < h \<Longrightarrow> (n::nat) \<le> h * ((n + h - 1) div h)"
proof -
  assume h: "0 < h"
  have "n + h - 1 = h * ((n + h - 1) div h) + (n + h - 1) mod h"
    by simp
  moreover have "(n + h - 1) mod h \<le> h - 1"
    using h by (simp add: less_Suc_eq_le[symmetric])
  ultimately show ?thesis using h by linarith
qed

lemma length_PBKDF2HMAC_derive:
  assumes "hash_ok h"
  shows "length (PBKDF2HMAC_derive h n s c p) = n"
proof -
  have h: "0 < digest_size h" using assms by (simp add: hash_ok_def)
  have "length (concat (map (pbkdf2_F h p s c)
            [1 ..< Suc ((n + digest_size h - 1) div digest_size h)]))
        = digest_size h * ((n + digest_size h - 1) div digest_size h)"
    using length_concat_map_const[of "pbkdf2_F h p s c" "digest_size h"]
      length_pbkdf2_F[OF assms] by simp
  with ceil_div_covers[OF h, of n] show ?thesis
    by (simp add: PBKDF2HMAC_derive_def)
qed

section \<open>What \<open>salted_hmac\<close> returns\<close>

lemma salted_hmac_cases:
  "salted_hmac e key_salt v secret algorithm =
     (case hashes e (str_upper e algorithm) of
        None \<Rightarrow> Inl InvalidAlgorithm
      | Some (Inl err) \<Rightarrow> Inl err
      | Some (Inr d) \<Rightarrow>
          Inr \<lparr>hmac_key =
                 hash d (force_bytes key_salt
                   @ force_bytes (case secret of None \<Rightarrow> SECRET_KEY e | Some s \<Rightarrow> s)),
               hmac_algorithm = d,
               hmac_data = force_bytes v\<rparr>)"
  by (simp add: salted_hmac_def Let_def HMAC_new_def HMAC_update_def
      split: option.splits sum.splits)

lemma salted_hmac_derive_hmac:
  assumes "hashes e (str_upper e algorithm) = None
           \<or> (\<exists>d. hashes e (str_upper e algorithm) = Some (Inr d))"
  shows "map_sum id HMAC_finalize (salted_hmac e key_salt v (Some secret) algorithm)
       = derive_hmac
           (\<lambda>n. case hashes e (str_upper e n) of Some (Inr d) \<Rightarrow> Some d | _ \<Rightarrow> None)
           (force_bytes key_salt) (force_bytes v) (force_bytes secret) algorithm"
  using assms
  by (auto simp: salted_hmac_cases derive_hmac_def HMAC_finalize_def Let_def)

lemma ascii_upper_shake128: "ascii_upper ''shake128'' = ''SHAKE128''"
  by (simp add: ascii_upper_def ascii_upper_char_def char_of_def bit_0)

section \<open>Bytes that the base64 decoder skips\<close>

lemma a2b_loop_skip:
  "c \<noteq> BASE64_PAD \<Longrightarrow> table_a2b_base64 c = None \<Longrightarrow>
   a2b_loop q l p out (pre @ c # post) = a2b_loop q l p out (pre @ post)"
  by (induction pre arbitrary: q l p out) (simp_all split: option.splits)

lemma urlsafe_b64decode_skip:
  assumes "c \<noteq> BASE64_PAD" and "table_a2b_base64 (urlsafe_decode_translation c) = None"
  shows "urlsafe_b64decode (Bytes (pre @ c # post)) = urlsafe_b64decode (Bytes (pre @ post))"
proof -
  have "urlsafe_decode_translation c \<noteq> BASE64_PAD"
    using assms(1) by (simp add: urlsafe_decode_translation_def BASE64_PAD_def)
  then show ?thesis
    using a2b_loop_skip[OF _ assms(2)]
    by (simp add: urlsafe_b64decode_def bytes_from_decode_types_def a2b_base64_def)
qed

lemma decrypt_token_hello_b64:
  "Fernet_decrypt (test_env\<lparr>time_time := now\<rparr>) test_fernet_b64 token_hello_b64 None
   = Inr (force_bytes (Str ''hello world''))"
proof -
  have k: "AES_key_ok (force_bytes (key test_fernet_b64))"
    by (simp add: test_fernet_b64_def force_bytes_def AES_key_ok_def)
  have c: "block_cipher_ok (AES test_env) (force_bytes (key test_fernet_b64))"
    by (simp add: test_fernet_b64_def test_fernet_fields force_bytes_def xor_cipher_ok)
  have s: "signer_roundtrip (signer test_fernet_b64) 1000"
    by (simp add: test_fernet_b64_def test_signer_roundtrip)
  from Fernet_roundtrip[OF k c s length_os_urandom, of "force_bytes (Str ''hello world'')" test_rnd]
  show ?thesis
    using encrypt_token_hello_b64
    by (auto simp: Fernet_encrypt_at_time_def Let_def)
qed

lemma exclamation_mark_skipped:
  "(33::byte) \<noteq> BASE64_PAD" "table_a2b_base64 (urlsafe_decode_translation 33) = None"
  by (simp_all add: BASE64_PAD_def urlsafe_decode_translation_def table_a2b_base64_def)

section \<open>The properties of the specification\<close>

text \<open>
  C1.  Round trip: for every data and every engine with a valid AES key, whose block
  cipher decrypts what it encrypts under that key and whose signer returns what it
  signed, \<open>encrypt_at_time\<close> returns a token and \<open>decrypt\<close> of that token with no TTL
  returns the data, at whatever time it is called; the same holds for the base64
  variant \<open>Fernet\<close>.
\<close>

theorem encrypt_decrypt_roundtrip:
  assumes "AES_key_ok (force_bytes (key fb))"
    and "block_cipher_ok (AES e) (force_bytes (key fb))"
    and "signer_roundtrip (signer fb) t"
    and "AES_key_ok (force_bytes (key f))"
    and "block_cipher_ok (AES e) (force_bytes (key f))"
    and "signer_roundtrip (signer f) t"
  shows "(\<exists>tok. FernetBytes_encrypt_at_time e fb d t rnd = Inr tok
            \<and> FernetBytes_decrypt (e\<lparr>time_time := now\<rparr>) fb tok None = Inr (force_bytes d))
       \<and> (\<exists>tok. Fernet_encrypt_at_time e f d t rnd = Inr tok
            \<and> Fernet_decrypt (e\<lparr>time_time := now\<rparr>) f tok None = Inr (force_bytes d))"
proof
  show "\<exists>tok. FernetBytes_encrypt_at_time e fb d t rnd = Inr tok
            \<and> FernetBytes_decrypt (e\<lparr>time_time := now\<rparr>) fb tok None = Inr (force_bytes d)"
    using FernetBytes_roundtrip[OF assms(1-3) length_os_urandom, of "force_bytes d" rnd]
    by (auto simp: FernetBytes_encrypt_at_time_def Let_def)
  show "\<exists>tok. Fernet_encrypt_at_time e f d t rnd = Inr tok
            \<and> Fernet_decrypt (e\<lparr>time_time := now\<rparr>) f tok None = Inr (force_bytes d)"
    using Fernet_roundtrip[OF assms(4-6) length_os_urandom, of "force_bytes d" rnd]
    by (auto simp: Fernet_encrypt_at_time_def Let_def)
qed

theorem encrypt_decrypt_roundtrip_witness:
  "AES_key_ok (force_bytes (key test_fernet))
   \<and> block_cipher_ok (AES test_env) (force_bytes (key test_fernet))
   \<and> signer_roundtrip (signer test_fernet) 1000
   \<and> Fernet_init test_env (Some test_key_b64) None = Inr test_fernet_b64
   \<and> AES_key_ok (force_bytes (key test_fernet_b64))
   \<and> block_cipher_ok (AES test_env) (force_bytes (key test_fernet_b64))
   \<and> signer_roundtrip (signer test_fernet_b64) 1000
   \<and> FernetBytes_encrypt_at_time test_env test_fernet (Str ''hello world'') 1000 test_rnd
       = Inr token_hello
   \<and> FernetBytes_decrypt (test_env\<lparr>time_time := 5000\<rparr>) test_fernet token_hello None
       = Inr (force_bytes (Str ''hello world''))
   \<and> Fernet_encrypt_at_time test_env test_fernet_b64 (Str ''hello world'') 1000 test_rnd
       = Inr token_hello_b64
   \<and> Fernet_decrypt (test_env\<lparr>time_time := 5000\<rparr>) test_fernet_b64 token_hello_b64 None
       = Inr (force_bytes (Str ''hello world''))"
proof -
  have k1: "AES_key_ok (force_bytes (key test_fernet))"
    by (simp add: test_fernet_fields force_bytes_def AES_key_ok_def)
  have c1: "block_cipher_ok (AES test_env) (force_bytes (key test_fernet))"
    by (simp add: test_fernet_fields force_bytes_def xor_cipher_ok)
  have s1: "signer_roundtrip (signer test_fernet) 1000"
    by (simp add: test_fernet_fields test_signer_roundtrip)
  have i: "Fernet_init test_env (Some test_key_b64) None = Inr test_fernet_b64"
    by (simp add: Fernet_init_def urlsafe_b64decode_test_key FernetBytes_init_def
        test_fernet_b64_def Signer_new_def test_env_def py_or_Bytes)
  have k2: "AES_key_ok (force_bytes (key test_fernet_b64))"
    by (simp add: test_fernet_b64_def force_bytes_def AES_key_ok_def)
  have c2: "block_cipher_ok (AES test_env) (force_bytes (key test_fernet_b64))"
    by (simp add: test_fernet_b64_def test_fernet_fields force_bytes_def xor_cipher_ok)
  have s2: "signer_roundtrip (signer test_fernet_b64) 1000"
    by (simp add: test_fernet_b64_def test_signer_roundtrip)
  note r = encrypt_decrypt_roundtrip[OF k1 c1 s1 k2 c2 s2, of "Str ''hello world''" test_rnd 5000]
  have d1: "FernetBytes_decrypt (test_env\<lparr>time_time := 5000\<rparr>) test_fernet token_hello None
      = Inr (force_bytes (Str ''hello world''))"
    using r[THEN conjunct1] unfolding encrypt_token_hello by blast
  have d2: "Fernet_decrypt (test_env\<lparr>time_time := 5000\<rparr>) test_fernet_b64 token_hello_b64 None
      = Inr (force_bytes (Str ''hello world''))"
    using r[THEN conjunct2] unfolding encrypt_token_hello_b64 by blast
  from k1 c1 s1 i k2 c2 s2 encrypt_token_hello d1 encrypt_token_hello_b64 d2
  show ?thesis by blast
qed

text \<open>
  C2, as the spec states it, fails: \<open>decrypt\<close> calls \<open>unsign\<close> outside its \<^verbatim>\<open>try\<close>
  blocks.  A token of the test engine with its last signature byte changed raises
  \<open>BadSignature\<close>, and the untouched token, checked with a TTL of 1 second at time 1002,
  raises \<open>SignatureExpired\<close>; neither is \<open>InvalidToken\<close>.
\<close>

theorem decrypt_signer_failure_counterexample:
  "unsign (signer test_fernet) (time_time test_env) (butlast token_hello @ [33]) None
     = Inl BadSignature
   \<and> FernetBytes_decrypt test_env test_fernet (butlast token_hello @ [33]) None
     = Inl BadSignature
   \<and> FernetBytes_decrypt test_env test_fernet (butlast token_hello @ [33]) None
     \<noteq> Inl InvalidToken
   \<and> unsign (signer test_fernet) (time_time (test_env\<lparr>time_time := 1002\<rparr>)) token_hello (Some 1)
     = Inl SignatureExpired
   \<and> FernetBytes_decrypt (test_env\<lparr>time_time := 1002\<rparr>) test_fernet token_hello (Some 1)
     = Inl SignatureExpired
   \<and> FernetBytes_decrypt (test_env\<lparr>time_time := 1002\<rparr>) test_fernet token_hello (Some 1)
     \<noteq> Inl InvalidToken"
  by (simp add: FernetBytes_decrypt_def unsign_token_hello_tampered unsign_token_hello_expired)

text \<open>
  C2, amended.  Whatever failure the signer's \<open>unsign\<close> raises on a token,
  \<open>FernetBytes.decrypt\<close> raises that same failure, unchanged, to its caller.
\<close>

theorem decrypt_signer_failure:
  "unsign (signer self) (time_time e) tok ttl = Inl err \<Longrightarrow>
   FernetBytes_decrypt e self tok ttl = Inl err"
  by (simp add: FernetBytes_decrypt_def)

theorem decrypt_signer_failure_witness:
  "unsign (signer test_fernet) (time_time test_env) (butlast token_hello @ [33]) None
     = Inl BadSignature
   \<and> FernetBytes_decrypt test_env test_fernet (butlast token_hello @ [33]) None
     = Inl BadSignature"
  using decrypt_signer_failure[OF unsign_token_hello_tampered] unsign_token_hello_tampered
  by simp

text \<open>
  C3.  With a key that decodes to 32 bytes, \<open>Fernet\<close> builds the engine whose key, the
  AES key, is the last 16 decoded bytes, and whose signer is a new signer of the given
  signer's class (the default class when none is given) over the first 16 decoded
  bytes.
\<close>

theorem Fernet_init_key_split:
  assumes "urlsafe_b64decode k = Inr raw" and "length raw = 32"
  shows "\<exists>f. Fernet_init e (Some k) s = Inr f
           \<and> key f = Bytes (drop 16 raw)
           \<and> signer_key (signer f) = Some (Bytes (take 16 raw))
           \<and> signer_type (signer f)
               = (case s of None \<Rightarrow> FernetSigner e | Some s' \<Rightarrow> signer_type s')
           \<and> signer_algorithm (signer f) = None
           \<and> length (take 16 raw) = 16 \<and> length (drop 16 raw) = 16
           \<and> take 16 raw @ drop 16 raw = raw"
proof -
  have "drop 16 raw \<noteq> []" using assms(2) by auto
  then show ?thesis
    using assms
    by (simp add: Fernet_init_def FernetBytes_init_def py_or_Bytes Signer_new_def
        split: option.splits)
qed

theorem Fernet_init_key_split_witness:
  "urlsafe_b64decode test_key_b64 = Inr (replicate 32 0)
   \<and> length (replicate 32 (0::byte)) = 32
   \<and> (\<exists>f. Fernet_init test_env (Some test_key_b64) None = Inr f
          \<and> key f = Bytes (drop 16 (replicate 32 0))
          \<and> signer_key (signer f) = Some (Bytes (take 16 (replicate 32 0)))
          \<and> signer_type (signer f) = FernetSigner test_env)"
proof -
  have l: "length (replicate 32 (0::byte)) = 32" by simp
  from Fernet_init_key_split[OF urlsafe_b64decode_test_key l, of test_env None]
    urlsafe_b64decode_test_key l
  show ?thesis by auto
qed

text \<open>
  C4.  With a key that decodes to some bytes, \<open>Fernet\<close> raises the \<open>ValueError\<close> of its
  length check when they are not 32, and returns an engine when they are.
\<close>

theorem Fernet_init_key_length:
  assumes "urlsafe_b64decode k = Inr raw"
  shows "(length raw \<noteq> 32 \<longrightarrow> Fernet_init e (Some k) s = Inl ValueError)
       \<and> (length raw = 32 \<longrightarrow> (\<exists>f. Fernet_init e (Some k) s = Inr f))"
  using assms by (simp add: Fernet_init_def)

theorem Fernet_init_key_length_witness:
  "urlsafe_b64decode (Str ''AAAA'') = Inr [0, 0, 0]
   \<and> Fernet_init test_env (Some (Str ''AAAA'')) None = Inl ValueError
   \<and> urlsafe_b64decode test_key_b64 = Inr (replicate 32 0)
   \<and> (\<exists>f. Fernet_init test_env (Some test_key_b64) None = Inr f)"
proof -
  have a: "urlsafe_b64decode (Str ''AAAA'') = Inr [0, 0, 0]"
    by (simp add: urlsafe_b64decode_def bytes_from_decode_types_def a2b_base64_def
        urlsafe_decode_translation_def table_a2b_base64_def BASE64_PAD_def)
  from Fernet_init_key_length[OF a, of test_env None]
    Fernet_init_key_length[OF urlsafe_b64decode_test_key, of test_env None]
    a urlsafe_b64decode_test_key
  show ?thesis by simp
qed

text \<open>
  C5, as the spec states it, fails for tokens that contain bytes outside the alphabet:
  the decoder skips them.  The token \<open>!!!!\<close> decodes to the empty payload, which the
  signer refuses with \<open>BadSignature\<close>, and the token of \<open>hello world\<close> with an
  exclamation mark put before it decrypts to \<open>hello world\<close>; neither call raises
  \<open>InvalidToken\<close>.
\<close>

theorem Fernet_decrypt_invalid_character_counterexample:
  "urlsafe_b64decode (Bytes (map of_char ''!!!!'')) = Inr []
   \<and> Fernet_decrypt test_env test_fernet_b64 (map of_char ''!!!!'') None = Inl BadSignature
   \<and> Fernet_decrypt test_env test_fernet_b64 (map of_char ''!!!!'') None \<noteq> Inl InvalidToken
   \<and> Fernet_decrypt (test_env\<lparr>time_time := 5000\<rparr>) test_fernet_b64
        (of_char CHR ''!'' # token_hello_b64) None
      = Inr (force_bytes (Str ''hello world''))"
proof -
  have a: "urlsafe_b64decode (Bytes (map of_char ''!!!!'')) = Inr []"
    by (simp add: urlsafe_b64decode_def bytes_from_decode_types_def a2b_base64_def
        urlsafe_decode_translation_def table_a2b_base64_def BASE64_PAD_def)
  have b: "Fernet_decrypt test_env test_fernet_b64 (map of_char ''!!!!'') None = Inl BadSignature"
    unfolding Fernet_decrypt_def a
    using test_signer_short[of "[]" "Some (Bytes (replicate 16 0))"]
    by (simp add: FernetBytes_decrypt_def test_fernet_b64_def)
  have c: "Fernet_decrypt (test_env\<lparr>time_time := 5000\<rparr>) test_fernet_b64
        (of_char CHR ''!'' # token_hello_b64) None
      = Inr (force_bytes (Str ''hello world''))"
    using urlsafe_b64decode_skip[OF exclamation_mark_skipped, of "[]" token_hello_b64]
      decrypt_token_hello_b64[of 5000]
    by (simp add: Fernet_decrypt_def)
  from a b c show ?thesis by simp
qed

text \<open>
  C5, amended.  Whenever base64-url-decoding of the token fails, \<open>Fernet.decrypt\<close> raises
  \<open>InvalidToken\<close>.  A byte outside the alphabet, other than the pad, is no such failure:
  the decoder skips it, and \<open>Fernet.decrypt\<close> does with the token what it does with the
  token without that byte.
\<close>

theorem Fernet_decrypt_decode_failure:
  "(urlsafe_b64decode (Bytes token) = Inl err \<longrightarrow>
      Fernet_decrypt e self token ttl = Inl InvalidToken)
   \<and> (c \<noteq> BASE64_PAD \<and> table_a2b_base64 (urlsafe_decode_translation c) = None \<longrightarrow>
        Fernet_decrypt e self (pre @ c # post) ttl = Fernet_decrypt e self (pre @ post) ttl)"
proof (intro conjI impI)
  assume "urlsafe_b64decode (Bytes token) = Inl err"
  then show "Fernet_decrypt e self token ttl = Inl InvalidToken"
    by (auto simp: Fernet_decrypt_def urlsafe_b64decode_def bytes_from_decode_types_def
        a2b_base64_def dest: a2b_loop_error)
next
  assume "c \<noteq> BASE64_PAD \<and> table_a2b_base64 (urlsafe_decode_translation c) = None"
  then show "Fernet_decrypt e self (pre @ c # post) ttl = Fernet_decrypt e self (pre @ post) ttl"
    by (simp add: Fernet_decrypt_def urlsafe_b64decode_skip)
qed

theorem Fernet_decrypt_decode_failure_witness:
  "urlsafe_b64decode (Bytes (map of_char ''abc'')) = Inl binascii_Error
   \<and> Fernet_decrypt test_env test_fernet_b64 (map of_char ''abc'') None = Inl InvalidToken
   \<and> urlsafe_b64decode (Bytes (map of_char ''a'')) = Inl binascii_Error
   \<and> Fernet_decrypt test_env test_fernet_b64 (map of_char ''a'') None = Inl InvalidToken
   \<and> (33::byte) \<noteq> BASE64_PAD \<and> table_a2b_base64 (urlsafe_decode_translation 33) = None
   \<and> Fernet_decrypt test_env test_fernet_b64 (33 # token_hello_b64) None
      = Fernet_decrypt test_env test_fernet_b64 token_hello_b64 None"
proof -
  have a: "urlsafe_b64decode (Bytes (map of_char ''abc'')) = Inl binascii_Error"
    by (simp add: urlsafe_b64decode_def bytes_from_decode_types_def a2b_base64_def
        urlsafe_decode_translation_def table_a2b_base64_def BASE64_PAD_def)
  have b: "urlsafe_b64decode (Bytes (map of_char ''a'')) = Inl binascii_Error"
    by (simp add: urlsafe_b64decode_def bytes_from_decode_types_def a2b_base64_def
        urlsafe_decode_translation_def table_a2b_base64_def BASE64_PAD_def)
  note t = Fernet_decrypt_decode_failure[of _ _ test_env test_fernet_b64 None]
  have ta: "Fernet_decrypt test_env test_fernet_b64 (map of_char ''abc'') None = Inl InvalidToken"
    using t[THEN conjunct1, rule_format, OF a] .
  have tb: "Fernet_decrypt test_env test_fernet_b64 (map of_char ''a'') None = Inl InvalidToken"
    using t[THEN conjunct1, rule_format, OF b] .
  have "Fernet_decrypt test_env test_fernet_b64 ([] @ 33 # token_hello_b64) None
      = Fernet_decrypt test_env test_fernet_b64 ([] @ token_hello_b64) None"
    using t[THEN conjunct2, rule_format, of 33 "[]" token_hello_b64] exclamation_mark_skipped
    by blast
  then have tc: "Fernet_decrypt test_env test_fernet_b64 (33 # token_hello_b64) None
      = Fernet_decrypt test_env test_fernet_b64 token_hello_b64 None"
    by simp
  from a b ta tb tc exclamation_mark_skipped show ?thesis by blast
qed

text \<open>
  C6.  Once \<open>unsign\<close> has returned a payload and the cipher has been built, a
  \<open>ValueError\<close> of \<^verbatim>\<open>decryptor.finalize()\<close> and a \<open>ValueError\<close> of
  \<^verbatim>\<open>unpadder.finalize()\<close> both leave \<open>FernetBytes.decrypt\<close> as \<open>InvalidToken\<close>.
\<close>

theorem decrypt_cipher_or_padding_failure:
  assumes "unsign (signer self) (time_time e) tok ttl = Inr d"
    and "Cipher (force_bytes (key self)) (take 16 d) = Inr c"
    and "decryptor_finalize (drop 16 d) = Inl err
         \<or> (decryptor_finalize (drop 16 d) = Inr fin
            \<and> PKCS7_unpad (decryptor_update (AES e) c (drop 16 d) @ fin) = Inl err)"
  shows "FernetBytes_decrypt e self tok ttl = Inl InvalidToken"
  using assms(3)
proof
  assume f: "decryptor_finalize (drop 16 d) = Inl err"
  then have "err = ValueError" by (rule decryptor_finalize_error)
  with f show ?thesis
    by (simp add: FernetBytes_decrypt_def assms(1,2) Let_def is_ValueError_def)
next
  assume f: "decryptor_finalize (drop 16 d) = Inr fin
            \<and> PKCS7_unpad (decryptor_update (AES e) c (drop 16 d) @ fin) = Inl err"
  then have "err = ValueError" using PKCS7_unpad_error by blast
  with f show ?thesis
    by (simp add: FernetBytes_decrypt_def assms(1,2) Let_def is_ValueError_def)
qed

theorem decrypt_cipher_or_padding_failure_witness:
  "unsign (signer test_fernet) (time_time test_env) token_partial_block None
     = Inr ([0, 1, 2, 3, 4, 5, 6, 7, 8, 9, 10, 11, 12, 13, 14, 15] @ [1, 2, 3])
   \<and> decryptor_finalize [1, 2, 3] = Inl ValueError
   \<and> FernetBytes_decrypt test_env test_fernet token_partial_block None = Inl InvalidToken
   \<and> unsign (signer test_fernet) (time_time test_env) token_bad_padding None
     = Inr (replicate 16 0 @ replicate 16 7)
   \<and> decryptor_finalize (replicate 16 7) = Inr []
   \<and> PKCS7_unpad
       (decryptor_update (AES test_env)
          \<lparr>cipher_key = replicate 32 7, cipher_iv = replicate 16 0\<rparr> (replicate 16 7) @ [])
     = Inl ValueError
   \<and> FernetBytes_decrypt test_env test_fernet token_bad_padding None = Inl InvalidToken"
proof -
  let ?iv = "[0, 1, 2, 3, 4, 5, 6, 7, 8, 9, 10, 11, 12, 13, 14, 15] :: bytes"
  have c1: "Cipher (force_bytes (key test_fernet)) (take 16 (?iv @ [1, 2, 3]))
      = Inr \<lparr>cipher_key = replicate 32 7, cipher_iv = ?iv\<rparr>"
    by (simp add: test_fernet_fields force_bytes_def Cipher_def AES_key_ok_def
        AES_block_size_def)
  have f1: "decryptor_finalize [1, 2, 3] = Inl ValueError"
    by (simp add: decryptor_finalize_def AES_block_size_def)
  then have d1: "decryptor_finalize (drop 16 (?iv @ [1, 2, 3])) = Inl ValueError
       \<or> (decryptor_finalize (drop 16 (?iv @ [1, 2, 3])) = Inr []
          \<and> PKCS7_unpad (decryptor_update (AES test_env)
               \<lparr>cipher_key = replicate 32 7, cipher_iv = ?iv\<rparr> (drop 16 (?iv @ [1, 2, 3])) @ [])
             = Inl ValueError)"
    by simp
  have c2: "Cipher (force_bytes (key test_fernet)) (take 16 (replicate 16 0 @ replicate 16 7))
      = Inr \<lparr>cipher_key = replicate 32 7, cipher_iv = replicate 16 0\<rparr>"
    by (simp add: test_fernet_fields force_bytes_def Cipher_def AES_key_ok_def
        AES_block_size_def)
  have f2: "decryptor_finalize (replicate 16 7) = Inr []"
    by (simp add: decryptor_finalize_def AES_block_size_def)
  have b: "blocks (replicate 16 (7::byte)) = [replicate 16 7]"
    using blocks_append[of "replicate 16 (7::byte)" "[]"] by simp
  have u: "decryptor_update (AES test_env)
          \<lparr>cipher_key = replicate 32 7, cipher_iv = replicate 16 0\<rparr> (replicate 16 7)
        = replicate 16 0"
    by (simp add: decryptor_update_def AES_block_size_def b test_fernet_fields xor_cipher_def
        xor_bytes_def)
  have p2: "PKCS7_unpad
       (decryptor_update (AES test_env)
          \<lparr>cipher_key = replicate 32 7, cipher_iv = replicate 16 0\<rparr> (replicate 16 7) @ [])
     = Inl ValueError"
    by (simp add: u PKCS7_unpad_def AES_block_size_def)
  have d2: "decryptor_finalize (drop 16 (replicate 16 0 @ replicate 16 7)) = Inl ValueError
       \<or> (decryptor_finalize (drop 16 (replicate 16 0 @ replicate 16 7)) = Inr []
          \<and> PKCS7_unpad (decryptor_update (AES test_env)
               \<lparr>cipher_key = replicate 32 7, cipher_iv = replicate 16 0\<rparr>
               (drop 16 (replicate 16 0 @ replicate 16 7)) @ [])
             = Inl ValueError)"
    using f2 p2 by simp
  from decrypt_cipher_or_padding_failure[OF unsign_token_partial_block c1 d1]
    decrypt_cipher_or_padding_failure[OF unsign_token_bad_padding c2 d2]
    unsign_token_partial_block unsign_token_bad_padding f1 f2 p2
  show ?thesis by simp
qed

text \<open>
  C7.  \<open>salted_hmac\<close> is to return the HMAC of the value under the digest of
  \<open>key_salt\<close> followed by the secret, or to raise \<open>InvalidAlgorithm\<close> when the
  algorithm name names no digest.  The code does neither at the name \<open>shake128\<close>: the
  upper-cased name is an attribute of the \<^verbatim>\<open>hashes\<close> module, so the lookup raises
  nothing, and the call \<^verbatim>\<open>hasher()\<close>, which stands outside the \<^verbatim>\<open>try\<close> block, raises
  \<open>TypeError\<close>, because \<open>SHAKE128\<close> takes a digest size.
\<close>

theorem salted_hmac_shake128:
  "hashes test_env (str_upper test_env ''shake128'') = Some (Inl TypeError)
   \<and> salted_hmac test_env (Str ''salt'') (Str ''value'') (Some (Str ''secret'')) ''shake128''
      = Inl TypeError
   \<and> salted_hmac test_env (Str ''salt'') (Str ''value'') (Some (Str ''secret'')) ''shake128''
      \<noteq> Inl InvalidAlgorithm"
proof -
  have "hashes test_env (str_upper test_env ''shake128'') = Some (Inl TypeError)"
    by (simp add: test_env_def ascii_upper_shake128 test_hashes_def)
  then show ?thesis by (simp add: salted_hmac_cases)
qed

text \<open>
  C8.  \<open>pbkdf2\<close> takes SHA-256 when no digest is given and the digest's size when
  \<open>dklen\<close> is zero, its result is the PBKDF2-HMAC key of RFC 8018 for the iteration
  count, and that result is exactly as long as the length it was asked for.
\<close>

theorem pbkdf2_defaults_and_length:
  assumes "hash_ok (case digest of None \<Rightarrow> SHA256 e | Some d \<Rightarrow> d)" and "0 < iterations"
  shows "pbkdf2 e password salt iterations dklen None
           = pbkdf2 e password salt iterations dklen (Some (SHA256 e))
       \<and> pbkdf2 e password salt iterations 0 digest
           = pbkdf2 e password salt iterations
               (digest_size (case digest of None \<Rightarrow> SHA256 e | Some d \<Rightarrow> d)) digest
       \<and> pbkdf2 e password salt iterations dklen digest
           = PBKDF2HMAC_derive (case digest of None \<Rightarrow> SHA256 e | Some d \<Rightarrow> d)
               (if dklen = 0 then digest_size (case digest of None \<Rightarrow> SHA256 e | Some d \<Rightarrow> d)
                else dklen)
               (force_bytes salt) iterations (force_bytes password)
       \<and> length (pbkdf2 e password salt iterations dklen digest)
           = (if dklen = 0 then digest_size (case digest of None \<Rightarrow> SHA256 e | Some d \<Rightarrow> d)
              else dklen)"
  using length_PBKDF2HMAC_derive[OF assms(1)]
  by (simp add: pbkdf2_def Let_def)

theorem pbkdf2_defaults_and_length_witness:
  "hash_ok (case None of None \<Rightarrow> SHA256 test_env | Some d \<Rightarrow> d) \<and> 0 < (1::nat)
   \<and> length (pbkdf2 test_env (Str ''password'') (Str ''salt'') 1 0 None) = 32
   \<and> length (pbkdf2 test_env (Str ''password'') (Str ''salt'') 1 40 None) = 40
   \<and> pbkdf2 test_env (Str ''password'') (Str ''salt'') 1 0 None
      = pbkdf2 test_env (Str ''password'') (Str ''salt'') 1 32 (Some (SHA256 test_env))"
proof -
  have s: "SHA256 test_env = checksum_digest 32 64" by (simp add: test_env_def)
  have h: "hash_ok (case None of None \<Rightarrow> SHA256 test_env | Some d \<Rightarrow> d)"
    by (simp add: s hash_ok_checksum)
  have i: "0 < (1::nat)" by simp
  have d: "digest_size (SHA256 test_env) = 32" by (simp add: s checksum_digest_def)
  note t = pbkdf2_defaults_and_length[OF h i, of "Str ''password''" "Str ''salt''"]
  note len = t[THEN conjunct2, THEN conjunct2, THEN conjunct2]
  have a: "length (pbkdf2 test_env (Str ''password'') (Str ''salt'') 1 0 None) = 32"
    using len[of 0] d by simp
  have b: "length (pbkdf2 test_env (Str ''password'') (Str ''salt'') 1 40 None) = 40"
    using len[of 40] by simp
  have c1: "pbkdf2 test_env (Str ''password'') (Str ''salt'') 1 0 None
      = pbkdf2 test_env (Str ''password'') (Str ''salt'') 1 32 None"
    using t[THEN conjunct2, THEN conjunct1] d by simp
  have c2: "pbkdf2 test_env (Str ''password'') (Str ''salt'') 1 32 None
      = pbkdf2 test_env (Str ''password'') (Str ''salt'') 1 32 (Some (SHA256 test_env))"
    using t[of 32, THEN conjunct1] .
  have c: "pbkdf2 test_env (Str ''password'') (Str ''salt'') 1 0 None
      = pbkdf2 test_env (Str ''password'') (Str ''salt'') 1 32 (Some (SHA256 test_env))"
    using c1 c2 by (rule trans)
  from h i a b c show ?thesis by blast
qed

text \<open>
  C9.  \<open>Fernet(key=None)\<close> decodes nothing, checks no length and splits nothing: it
  returns the engine whose key is \<^verbatim>\<open>settings.CRYPTOGRAPHY_KEY\<close> as it is, with a new
  default signer, and raises no error, whatever that key is.
\<close>

theorem Fernet_init_None:
  "Fernet_init e None s = Inr (FernetBytes_init e None None)
   \<and> key (FernetBytes_init e None None) = CRYPTOGRAPHY_KEY e
   \<and> signer (FernetBytes_init e None None) = Signer_new (FernetSigner e) None None"
  by (simp add: Fernet_init_def FernetBytes_init_def)

text \<open>
  C10.  When \<open>unsign\<close> returns a payload of fewer than 16 bytes, \<open>FernetBytes.decrypt\<close>
  does not raise \<open>InvalidToken\<close>: the IV is the whole short payload, and the
  \<open>ValueError\<close> of the cipher's constructor reaches the caller.
\<close>

theorem decrypt_short_payload:
  assumes "unsign (signer self) (time_time e) tok ttl = Inr d" and "length d < 16"
  shows "take 16 d = d
         \<and> Cipher (force_bytes (key self)) (take 16 d) = Inl ValueError
         \<and> FernetBytes_decrypt e self tok ttl = Inl ValueError"
  using assms by (simp add: FernetBytes_decrypt_def Cipher_short_iv)

theorem decrypt_short_payload_witness:
  "unsign (signer test_fernet) (time_time test_env) token_short None = Inr [1, 2, 3]
   \<and> length [1, 2, 3 :: byte] < 16
   \<and> FernetBytes_decrypt test_env test_fernet token_short None = Inl ValueError"
proof -
  have l: "length [1, 2, 3 :: byte] < 16" by simp
  from decrypt_short_payload[OF unsign_token_short l] unsign_token_short l
  show ?thesis by simp
qed

end
